theory Spec2Isabelle
  imports Main
begin

section \<open>Data model of the customer controller\<close>

text \<open>
  The controller keeps customers and trusted devices in a relational store and four hashes
  in a key-value store: \<open>customers\<close> (customer id to current token), \<open>tokens\<close>
  (token to its record), \<open>otp\<close> (phone to the one-time code) and \<open>customer_login\<close>
  (phone to the failed-attempt status). Instants are epoch milliseconds, as
  \<open>moment().valueOf()\<close> gives them; every \<open>moment()\<close> of one request reads the
  same instant \<open>now\<close>.
\<close>

type_synonym time = int

record customer =
  cust_id :: string
  cust_phone :: string
  cust_name :: string
  hashed_password :: string
  image_url :: "string option"
  gender :: "string option"
  birth_date :: "string option"
  lang :: "string option"

record device =
  dev_customer_id :: string
  dev_uid :: string

record token_rec =
  tk_id :: string
  tk_role :: string
  tk_expiresAt :: time

record otp_rec =
  code :: int
  expiresAt :: time

record login_status =
  last_login_attempt :: "time option"
  safe_login_after :: int
  is_blocked :: bool

record state =
  customers_tbl :: "customer list"
  devices_tbl :: "device list"
  customers_h :: "string \<rightharpoonup> string"
  tokens_h :: "string \<rightharpoonup> token_rec"
  otp_h :: "string \<rightharpoonup> otp_rec"
  customer_login_h :: "string \<rightharpoonup> login_status"

text \<open>
  Every call to the relational store or to the key-value store is a site that can fail.
  A call whose callback tests \<open>err\<close> ends the waterfall with that error; a call made
  without a callback (\<open>redis.hDel\<close>, the compensating delete of registration) fails
  silently. A failed write changes nothing.
\<close>

datatype io_site =
  Login_getOneByPhone | Login_hGet_customer_login | Login_getOneByUid | Login_hGet_otp
| Login_hDel_otp | Login_hSet_customer_login | Login_hDel_customer_login
| Login_createDevice | Login_hGet_customers | Login_hDel_tokens | Login_hSet_customers
| Login_hSet_tokens
| Reg_getOneByPhone | Reg_create | Reg_hSet_customers | Reg_hSet_tokens | Reg_createDevice
| Reg_delete
| Type_getOneByPhone | Type_getOneByUid | Type_hSet_otp
| Profile_getOneById
| Sms_hGet_otp

type_synonym faults = "io_site \<Rightarrow> bool"

datatype login_type = Password | Otp

datatype error =
  ValidationError
| USER_NOT_FOUND
| NUMBER_TAKEN
| USER_BLOCKED int
| WRONG_PASSWORD
| WRONG_OTP
| EXPIRED_OTP
| INVALID_TOKEN
| BCRYPT_ARGS
| IO_ERROR io_site

record login_inputs =
  in_phone :: string
  in_password :: "string option"
  in_trust :: bool
  in_otp :: "string option"
  in_deviceId :: string

section \<open>Library functions the controller calls\<close>

text \<open>\<open>a.diff(b, 'seconds')\<close> of moment: the difference in milliseconds over 1000,
  truncated towards zero.\<close>

definition diff_seconds :: "time \<Rightarrow> time \<Rightarrow> int" where
  "diff_seconds a b =
     (if a - b < 0 then - ((b - a) div 1000) else (a - b) div 1000)"

text \<open>\<open>moment(t).add(n, 'seconds')\<close>; \<open>moment(null)\<close> is an invalid date, which
  stays invalid (\<open>None\<close>) and is before nothing.\<close>

definition add_seconds :: "time option \<Rightarrow> int \<Rightarrow> time option" where
  "add_seconds t n = (case t of None \<Rightarrow> None | Some v \<Rightarrow> Some (v + n * 1000))"

definition isBefore :: "time \<Rightarrow> time option \<Rightarrow> bool" where
  "isBefore now t = (case t of None \<Rightarrow> False | Some v \<Rightarrow> now < v)"

text \<open>LIVR's rule \<open>required\<close>: the value is present and not the empty string.\<close>

definition required :: "string option \<Rightarrow> bool" where
  "required v = (case v of None \<Rightarrow> False | Some x \<Rightarrow> x \<noteq> [])"

text \<open>JavaScript's \<open>parseInt\<close> called with no radix, as the source calls it: leading
  white space, an optional sign, then the prefix \<open>0x\<close> or \<open>0X\<close> followed by the longest
  run of hexadecimal digits, or else the longest run of decimal digits; \<open>NaN\<close> (\<open>None\<close>)
  when that run is empty. The value is the exact integer, which is what the source's double
  holds below \<open>2^53\<close>. The white space skipped is the ASCII one: the validator's
  \<open>trim\<close> has removed surrounding white space before the text gets here.\<close>

definition is_digit :: "char \<Rightarrow> bool" where
  "is_digit c = (48 \<le> (of_char c :: nat) \<and> (of_char c :: nat) \<le> 57)"

definition digit_val :: "char \<Rightarrow> int" where
  "digit_val c = int (of_char c) - 48"

definition is_hex_digit :: "char \<Rightarrow> bool" where
  "is_hex_digit c =
     (is_digit c \<or> (65 \<le> (of_char c :: nat) \<and> (of_char c :: nat) \<le> 70)
      \<or> (97 \<le> (of_char c :: nat) \<and> (of_char c :: nat) \<le> 102))"

definition hex_digit_val :: "char \<Rightarrow> int" where
  "hex_digit_val c =
     (if is_digit c then int (of_char c) - 48
      else if (of_char c :: nat) \<le> 70 then int (of_char c) - 55
      else int (of_char c) - 87)"

definition is_space :: "char \<Rightarrow> bool" where
  "is_space c = (c \<in> set [CHR '' '', CHR 0x09, CHR 0x0A, CHR 0x0B, CHR 0x0C, CHR 0x0D])"

definition digits_val :: "string \<Rightarrow> int" where
  "digits_val ds = foldl (\<lambda>acc c. acc * 10 + digit_val c) 0 ds"

definition hex_val :: "string \<Rightarrow> int" where
  "hex_val ds = foldl (\<lambda>acc c. acc * 16 + hex_digit_val c) 0 ds"

definition parseInt_decimal :: "string \<Rightarrow> int option" where
  "parseInt_decimal cs =
     (let ds = takeWhile is_digit cs in if ds = [] then None else Some (digits_val ds))"

definition parseInt_hex :: "string \<Rightarrow> int option" where
  "parseInt_hex cs =
     (let ds = takeWhile is_hex_digit cs in if ds = [] then None else Some (hex_val ds))"

definition parseInt_unsigned :: "string \<Rightarrow> int option" where
  "parseInt_unsigned cs =
     (case cs of
        c # x # rest \<Rightarrow>
          if c = CHR ''0'' \<and> (x = CHR ''x'' \<or> x = CHR ''X'') then parseInt_hex rest
          else parseInt_decimal cs
      | _ \<Rightarrow> parseInt_decimal cs)"

definition parseInt :: "string option \<Rightarrow> int option" where
  "parseInt v =
     (case v of
        None \<Rightarrow> None
      | Some str \<Rightarrow>
          (case dropWhile is_space str of
             [] \<Rightarrow> None
           | c # cs \<Rightarrow>
               if c = CHR ''-'' then map_option uminus (parseInt_unsigned cs)
               else if c = CHR ''+'' then parseInt_unsigned cs
               else parseInt_unsigned (c # cs)))"

section \<open>Queries of the relational store\<close>

text \<open>Modelled from the spec: the SQL of \<open>customersQuery\<close> and \<open>devicesQuery\<close> is not
  among the sources; the spec names them lookup-by-phone, lookup-by-id, create, delete,
  create-trusted-device and lookup-trusted-device-by (deviceId, phone).\<close>

definition getOneByPhone :: "state \<Rightarrow> string \<Rightarrow> customer list" where
  "getOneByPhone s ph = filter (\<lambda>c. cust_phone c = ph) (customers_tbl s)"

definition getOneById :: "state \<Rightarrow> string \<Rightarrow> customer list" where
  "getOneById s i = filter (\<lambda>c. cust_id c = i) (customers_tbl s)"

definition getOneByUid :: "state \<Rightarrow> string \<Rightarrow> string \<Rightarrow> device list" where
  "getOneByUid s uid ph =
     filter (\<lambda>d. dev_uid d = uid \<and>
                 list_ex (\<lambda>c. cust_id c = dev_customer_id d \<and> cust_phone c = ph) (customers_tbl s))
       (devices_tbl s)"

definition createDevice :: "state \<Rightarrow> string \<Rightarrow> string \<Rightarrow> state" where
  "createDevice s cid uid =
     s\<lparr>devices_tbl := devices_tbl s @ [\<lparr>dev_customer_id = cid, dev_uid = uid\<rparr>]\<rparr>"

section \<open>loginCustomer\<close>

text \<open>
  The request body after the first LIVR validation is the argument \<open>validData\<close>
  (\<open>None\<close> when the validator rejects it). \<open>compareSync\<close> is bcrypt's comparison and
  \<open>tok\<close> the value \<open>v4()\<close> returns. Each waterfall step is one definition, named after
  the comment that heads it in the source.
\<close>

definition emptyStatus :: login_status where
  "emptyStatus = \<lparr>last_login_attempt = None, safe_login_after = 0, is_blocked = False\<rparr>"

text \<open>if customer not exists, return error\<close>

definition login_findCustomer :: "faults \<Rightarrow> state \<Rightarrow> login_inputs \<Rightarrow> error + customer" where
  "login_findCustomer f s inputs =
     (if f Login_getOneByPhone then Inl (IO_ERROR Login_getOneByPhone)
      else case getOneByPhone s (in_phone inputs) of
             [] \<Rightarrow> Inl USER_NOT_FOUND
           | c # _ \<Rightarrow> Inr c)"

text \<open>check if customer is not blocked\<close>

definition login_checkBlocked :: "faults \<Rightarrow> state \<Rightarrow> time \<Rightarrow> login_inputs \<Rightarrow> error + login_status" where
  "login_checkBlocked f s now inputs =
     (if f Login_hGet_customer_login then Inl (IO_ERROR Login_hGet_customer_login)
      else case customer_login_h s (in_phone inputs) of
             None \<Rightarrow> Inr emptyStatus
           | Some customerStatus \<Rightarrow>
               if is_blocked customerStatus then
                 (case add_seconds (last_login_attempt customerStatus) 60 of
                    None \<Rightarrow> Inr (customerStatus\<lparr>last_login_attempt := None, is_blocked := False\<rparr>)
                  | Some unblockTime \<Rightarrow>
                      if now < unblockTime
                      then Inl (USER_BLOCKED (diff_seconds unblockTime now))
                      else Inr (customerStatus\<lparr>last_login_attempt := None, is_blocked := False\<rparr>))
               else Inr customerStatus)"

text \<open>determine login type. The second validator asks \<open>required\<close> of the field the
  login type needs and \<open>string\<close> of the other one, a rule every value of the model's
  type passes.\<close>

definition login_determineType :: "faults \<Rightarrow> state \<Rightarrow> login_inputs \<Rightarrow> error + login_type" where
  "login_determineType f s inputs =
     (if f Login_getOneByUid then Inl (IO_ERROR Login_getOneByUid)
      else
        let loginType =
              (if getOneByUid s (in_deviceId inputs) (in_phone inputs) \<noteq> [] then Otp else Password);
            validData =
              ((if loginType = Password then required (in_password inputs) else True) \<and>
               (if loginType = Otp then required (in_otp inputs) else True))
        in if \<not> validData then Inl ValidationError else Inr loginType)"

text \<open>check password or otp\<close>

definition hDel_otp :: "faults \<Rightarrow> io_site \<Rightarrow> state \<Rightarrow> string \<Rightarrow> state" where
  "hDel_otp f site s ph = (if f site then s else s\<lparr>otp_h := (otp_h s)(ph := None)\<rparr>)"

definition login_checkCredentials ::
  "faults \<Rightarrow> (string \<Rightarrow> string \<Rightarrow> bool) \<Rightarrow> state \<Rightarrow> time \<Rightarrow> customer \<Rightarrow> login_inputs \<Rightarrow> login_type
     \<Rightarrow> (error + bool) \<times> state" where
  "login_checkCredentials f compareSync s now customer inputs loginType =
     (if loginType = Password then
        (case in_password inputs of
           None \<Rightarrow> (Inl BCRYPT_ARGS, s)
         | Some pw \<Rightarrow> (Inr (compareSync pw (hashed_password customer)), s))
      else if f Login_hGet_otp then (Inl (IO_ERROR Login_hGet_otp), s)
      else
        (case otp_h s (cust_phone customer) of
           None \<Rightarrow> (Inr False, s)
         | Some otpObject \<Rightarrow>
             if expiresAt otpObject < now
             then (Inl EXPIRED_OTP, hDel_otp f Login_hDel_otp s (cust_phone customer))
             else if Some (code otpObject) = parseInt (in_otp inputs) \<and> now < expiresAt otpObject
             then (Inr True, hDel_otp f Login_hDel_otp s (cust_phone customer))
             else (Inr False, s)))"

text \<open>if password is wrong\<close>

definition failedStatus :: "time \<Rightarrow> login_status \<Rightarrow> login_status" where
  "failedStatus now customerStatus =
     (let st =
        (if last_login_attempt customerStatus \<noteq> None \<and>
            isBefore now (add_seconds (last_login_attempt customerStatus)
                            (safe_login_after customerStatus))
         then customerStatus\<lparr>is_blocked := True, safe_login_after := 0\<rparr>
         else customerStatus\<lparr>safe_login_after :=
                (case last_login_attempt customerStatus of
                   Some l \<Rightarrow> max (60 - diff_seconds now l) 0
                 | None \<Rightarrow> 0)\<rparr>)
      in st\<lparr>last_login_attempt := Some now\<rparr>)"

definition login_recordOutcome ::
  "faults \<Rightarrow> state \<Rightarrow> time \<Rightarrow> customer \<Rightarrow> login_status \<Rightarrow> bool \<Rightarrow> login_type
     \<Rightarrow> (error + unit) \<times> state" where
  "login_recordOutcome f s now customer customerStatus isValidCreadentials loginType =
     (if \<not> isValidCreadentials then
        (let st = failedStatus now customerStatus in
         if f Login_hSet_customer_login then (Inl (IO_ERROR Login_hSet_customer_login), s)
         else
           (Inl (if is_blocked st then USER_BLOCKED 60
                 else if loginType = Password then WRONG_PASSWORD else WRONG_OTP),
            s\<lparr>customer_login_h := (customer_login_h s)(cust_phone customer \<mapsto> st)\<rparr>))
      else
        (Inr (),
         if f Login_hDel_customer_login then s
         else s\<lparr>customer_login_h := (customer_login_h s)(cust_phone customer := None)\<rparr>))"

text \<open>trust device if needed\<close>

definition login_trustDevice ::
  "faults \<Rightarrow> state \<Rightarrow> customer \<Rightarrow> login_inputs \<Rightarrow> (error + unit) \<times> state" where
  "login_trustDevice f s customer inputs =
     (if \<not> in_trust inputs then (Inr (), s)
      else if f Login_createDevice then (Inl (IO_ERROR Login_createDevice), s)
      else (Inr (), createDevice s (cust_id customer) (in_deviceId inputs)))"

text \<open>delete old token\<close>

definition login_deleteOldToken :: "faults \<Rightarrow> state \<Rightarrow> customer \<Rightarrow> (error + unit) \<times> state" where
  "login_deleteOldToken f s customer =
     (if f Login_hGet_customers then (Inl (IO_ERROR Login_hGet_customers), s)
      else
        (Inr (),
         case customers_h s (cust_id customer) of
           None \<Rightarrow> s
         | Some oldToken \<Rightarrow>
             if oldToken \<noteq> [] \<and> \<not> f Login_hDel_tokens
             then s\<lparr>tokens_h := (tokens_h s)(oldToken := None)\<rparr>
             else s))"

text \<open>save and return new token\<close>

definition saveToken ::
  "faults \<Rightarrow> io_site \<Rightarrow> io_site \<Rightarrow> state \<Rightarrow> time \<Rightarrow> string \<Rightarrow> string \<Rightarrow> (error + string) \<times> state" where
  "saveToken f site_customers site_tokens s now cid tok =
     (if f site_customers then (Inl (IO_ERROR site_customers), s)
      else
        let s1 = s\<lparr>customers_h := (customers_h s)(cid \<mapsto> tok)\<rparr> in
        if f site_tokens then (Inl (IO_ERROR site_tokens), s1)
        else
          (Inr tok,
           s1\<lparr>tokens_h := (tokens_h s1)(tok \<mapsto>
                 \<lparr>tk_id = cid, tk_role = ''customer'', tk_expiresAt = now + 3600000\<rparr>)\<rparr>))"

definition loginCustomer ::
  "faults \<Rightarrow> (string \<Rightarrow> string \<Rightarrow> bool) \<Rightarrow> state \<Rightarrow> time \<Rightarrow> login_inputs option \<Rightarrow> string
     \<Rightarrow> (error + string) \<times> state" where
  "loginCustomer f compareSync s now validData tok =
     (case validData of
        None \<Rightarrow> (Inl ValidationError, s)
      | Some inputs \<Rightarrow>
     (case login_findCustomer f s inputs of
        Inl e \<Rightarrow> (Inl e, s)
      | Inr customer \<Rightarrow>
     (case login_checkBlocked f s now inputs of
        Inl e \<Rightarrow> (Inl e, s)
      | Inr customerStatus \<Rightarrow>
     (case login_determineType f s inputs of
        Inl e \<Rightarrow> (Inl e, s)
      | Inr loginType \<Rightarrow>
     (case login_checkCredentials f compareSync s now customer inputs loginType of
        (Inl e, s1) \<Rightarrow> (Inl e, s1)
      | (Inr isValidCreadentials, s1) \<Rightarrow>
     (case login_recordOutcome f s1 now customer customerStatus isValidCreadentials loginType of
        (Inl e, s2) \<Rightarrow> (Inl e, s2)
      | (Inr _, s2) \<Rightarrow>
     (case login_trustDevice f s2 customer inputs of
        (Inl e, s3) \<Rightarrow> (Inl e, s3)
      | (Inr _, s3) \<Rightarrow>
     (case login_deleteOldToken f s3 customer of
        (Inl e, s4) \<Rightarrow> (Inl e, s4)
      | (Inr _, s4) \<Rightarrow>
          saveToken f Login_hSet_customers Login_hSet_tokens s4 now (cust_id customer) tok))))))))"

section \<open>registerCustomer\<close>

text \<open>
  \<open>validData\<close> is the validator's output; LIVR's \<open>required_if\<close> makes \<open>deviceId\<close>
  present when \<open>trust\<close> is true, and the field is read in no other case.
  \<open>hashSync\<close> is bcrypt's hash, \<open>newId\<close> the id the store gives the created row and
  \<open>tok\<close> the value \<open>v4()\<close> returns.
\<close>

record register_inputs =
  rg_name :: string
  rg_phone :: string
  rg_password :: string
  rg_trust :: bool
  rg_deviceId :: string

text \<open>Modelled from the spec: \<open>customersQuery.create\<close> and \<open>customersQuery.delete\<close>
  are not among the sources; create adds the Identity record and returns it, delete
  removes the record with the given id.\<close>

definition newRow :: "string \<Rightarrow> string \<Rightarrow> string \<Rightarrow> string \<Rightarrow> customer" where
  "newRow newId nm ph hashedPassword =
     \<lparr>cust_id = newId, cust_phone = ph, cust_name = nm, hashed_password = hashedPassword,
      image_url = None, gender = None, birth_date = None, lang = None\<rparr>"

definition createCustomer :: "state \<Rightarrow> customer \<Rightarrow> state" where
  "createCustomer s c = s\<lparr>customers_tbl := customers_tbl s @ [c]\<rparr>"

definition deleteCustomer :: "state \<Rightarrow> string \<Rightarrow> state" where
  "deleteCustomer s i = s\<lparr>customers_tbl := filter (\<lambda>c. cust_id c \<noteq> i) (customers_tbl s)\<rparr>"

text \<open>The waterfall: the outcome, the stores, and the variable \<open>newCustomer\<close> as the
  final callback finds it.\<close>

definition register_waterfall ::
  "faults \<Rightarrow> (string \<Rightarrow> string) \<Rightarrow> state \<Rightarrow> time \<Rightarrow> register_inputs option \<Rightarrow> string \<Rightarrow> string
     \<Rightarrow> (error + string) \<times> state \<times> customer option" where
  "register_waterfall f hashSync s now validData newId tok =
     (case validData of
        None \<Rightarrow> (Inl ValidationError, s, None)
      | Some inputs \<Rightarrow>
          if f Reg_getOneByPhone then (Inl (IO_ERROR Reg_getOneByPhone), s, None)
          else if getOneByPhone s (rg_phone inputs) \<noteq> [] then (Inl NUMBER_TAKEN, s, None)
          else if f Reg_create then (Inl (IO_ERROR Reg_create), s, None)
          else
            let newCustomer =
                  newRow newId (rg_name inputs) (rg_phone inputs) (hashSync (rg_password inputs));
                s1 = createCustomer s newCustomer
            in
            (case saveToken f Reg_hSet_customers Reg_hSet_tokens s1 now (cust_id newCustomer) tok of
               (Inl e, s2) \<Rightarrow> (Inl e, s2, Some newCustomer)
             | (Inr token, s2) \<Rightarrow>
                 if rg_trust inputs then
                   (if f Reg_createDevice
                    then (Inl (IO_ERROR Reg_createDevice), s2, Some newCustomer)
                    else (Inr token,
                          createDevice s2 (cust_id newCustomer) (rg_deviceId inputs),
                          Some newCustomer))
                 else (Inr token, s2, Some newCustomer)))"

definition registerCustomer ::
  "faults \<Rightarrow> (string \<Rightarrow> string) \<Rightarrow> state \<Rightarrow> time \<Rightarrow> register_inputs option \<Rightarrow> string \<Rightarrow> string
     \<Rightarrow> (error + string) \<times> state" where
  "registerCustomer f hashSync s now validData newId tok =
     (case register_waterfall f hashSync s now validData newId tok of
        (Inl err, s1, newCustomer) \<Rightarrow>
          (Inl err,
           case newCustomer of
             None \<Rightarrow> s1
           | Some c \<Rightarrow> if f Reg_delete then s1 else deleteCustomer s1 (cust_id c))
      | (Inr token, s1, _) \<Rightarrow> (Inr token, s1))"

section \<open>getCustomerLoginType\<close>

record type_inputs =
  lt_phone :: string
  lt_deviceId :: "string option"

record type_response =
  password :: bool
  otp :: bool

text \<open>\<open>rnd\<close> is the value of \<open>Math.floor(100000 + Math.random() * 900000)\<close>.\<close>

definition getCustomerLoginType ::
  "faults \<Rightarrow> state \<Rightarrow> time \<Rightarrow> type_inputs option \<Rightarrow> int \<Rightarrow> (error + type_response) \<times> state" where
  "getCustomerLoginType f s now validData rnd =
     (case validData of
        None \<Rightarrow> (Inl ValidationError, s)
      | Some inputs \<Rightarrow>
          if f Type_getOneByPhone then (Inl (IO_ERROR Type_getOneByPhone), s)
          else if getOneByPhone s (lt_phone inputs) = [] then (Inl USER_NOT_FOUND, s)
          else
            (case lt_deviceId inputs of
               None \<Rightarrow> (Inr \<lparr>password = True, otp = False\<rparr>, s)
             | Some deviceId \<Rightarrow>
                 if deviceId = [] then (Inr \<lparr>password = True, otp = False\<rparr>, s)
                 else if f Type_getOneByUid then (Inl (IO_ERROR Type_getOneByUid), s)
                 else if getOneByUid s deviceId (lt_phone inputs) = []
                 then (Inr \<lparr>password = True, otp = False\<rparr>, s)
                 else
                   let otpObject = \<lparr>code = rnd, expiresAt = now + 120000\<rparr> in
                   if f Type_hSet_otp then (Inl (IO_ERROR Type_hSet_otp), s)
                   else (Inr \<lparr>password = False, otp = True\<rparr>,
                         s\<lparr>otp_h := (otp_h s)(lt_phone inputs \<mapsto> otpObject)\<rparr>)))"

section \<open>getCustomerProfile\<close>

text \<open>
  A fetched row is a JavaScript object: a map from column names to values, \<open>null\<close>
  being \<open>None\<close>. \<open>verified\<close> is the outcome of the \<open>verifyToken\<close> middleware and
  \<open>getFileUrl\<close> the function of \<open>fileStorageS3\<close>; neither is among the sources.
\<close>

type_synonym js_object = "string \<rightharpoonup> string option"

text \<open>Modelled from the spec: the columns \<open>customersQuery.getOneById\<close> selects are the
  fields of the Identity record.\<close>

definition rowObject :: "customer \<Rightarrow> js_object" where
  "rowObject c =
     [''id'' \<mapsto> Some (cust_id c), ''phone'' \<mapsto> Some (cust_phone c),
      ''name'' \<mapsto> Some (cust_name c), ''hashed_password'' \<mapsto> Some (hashed_password c),
      ''image_url'' \<mapsto> image_url c, ''gender'' \<mapsto> gender c,
      ''birth_date'' \<mapsto> birth_date c, ''lang'' \<mapsto> lang c]"

definition getCustomerProfile ::
  "faults \<Rightarrow> (string option \<Rightarrow> string option) \<Rightarrow> state \<Rightarrow> error + string
     \<Rightarrow> error + js_object" where
  "getCustomerProfile f getFileUrl s verified =
     (case verified of
        Inl err \<Rightarrow> Inl err
      | Inr customerId \<Rightarrow>
          if f Profile_getOneById then Inl (IO_ERROR Profile_getOneById)
          else
            (case getOneById s customerId of
               [] \<Rightarrow> Inl USER_NOT_FOUND
             | row # _ \<Rightarrow>
                 let customer = rowObject row;
                     customer1 = customer(''hashed_password'' := None);
                     customer2 = customer1(''image_url'' \<mapsto>
                                   getFileUrl (case customer1 ''image_url'' of
                                                 None \<Rightarrow> None | Some v \<Rightarrow> v))
                 in Inr customer2))"

section \<open>getOtpFromSMS and the router\<close>

fun nat_toString :: "nat \<Rightarrow> string" where
  "nat_toString n =
     (if n < 10 then [char_of (48 + n)]
      else nat_toString (n div 10) @ [char_of (48 + n mod 10)])"

declare nat_toString.simps [simp del]

definition toString :: "int \<Rightarrow> string" where
  "toString i = (if i < 0 then CHR ''-'' # nat_toString (nat (- i)) else nat_toString (nat i))"

text \<open>The handler answers with the body it sends; it is given no token and writes to no
  store, so the stores it leaves are the stores it found.\<close>

definition getOtpFromSMS :: "faults \<Rightarrow> state \<Rightarrow> string \<Rightarrow> string \<times> state" where
  "getOtpFromSMS f s ph =
     (case (if f Sms_hGet_otp then None else otp_h s ph) of
        None \<Rightarrow> ([], s)
      | Some otpObject \<Rightarrow> (toString (code otpObject), s))"

datatype handler =
  GetCustomerProfile | RegisterCustomer | GetCustomerLoginType | LoginCustomer
| UpdateCustomer | GetCustomerPhoto | GetOtpFromSMS

definition router :: "(string \<times> string \<times> handler) list" where
  "router =
     [(''GET'', ''/profile'', GetCustomerProfile),
      (''POST'', ''/register'', RegisterCustomer),
      (''POST'', ''/getlogin'', GetCustomerLoginType),
      (''POST'', ''/login'', LoginCustomer),
      (''PUT'', ''/profile'', UpdateCustomer),
      (''GET'', ''/photo/:file'', GetCustomerPhoto),
      (''GET'', ''/otp/recievebysms/:phone'', GetOtpFromSMS)]"

section \<open>Token validation\<close>

text \<open>Modelled from the spec: \<open>verifyToken\<close> is not among the sources. The spec's
  \<open>validate(token)\<close> looks up the token record; absent or expiry \<open>\<le>\<close> now is Invalid
  (\<open>None\<close>); else it returns the associated identity and role.\<close>

definition validateToken :: "state \<Rightarrow> time \<Rightarrow> string \<Rightarrow> (string \<times> string) option" where
  "validateToken s now token =
     (case tokens_h s token of
        None \<Rightarrow> None
      | Some r \<Rightarrow> if tk_expiresAt r \<le> now then None else Some (tk_id r, tk_role r))"

section \<open>Composite observations and example data\<close>

text \<open>A credential check that fails: the customer is found, the login type is determined
  and the step "check password or otp" answers false (it neither succeeds nor ends the
  waterfall with an error).\<close>

definition credentialCheckFails ::
  "faults \<Rightarrow> (string \<Rightarrow> string \<Rightarrow> bool) \<Rightarrow> state \<Rightarrow> time \<Rightarrow> login_inputs \<Rightarrow> bool" where
  "credentialCheckFails f compareSync s now inputs =
     (case login_findCustomer f s inputs of
        Inl _ \<Rightarrow> False
      | Inr customer \<Rightarrow>
          (case login_determineType f s inputs of
             Inl _ \<Rightarrow> False
           | Inr loginType \<Rightarrow>
               fst (login_checkCredentials f compareSync s now customer inputs loginType)
                 = Inr False))"

definition no_faults :: faults where
  "no_faults = (\<lambda>_. False)"

definition example_customer :: customer where
  "example_customer =
     \<lparr>cust_id = ''c1'', cust_phone = ''998901234567'', cust_name = ''Ali'',
      hashed_password = ''hash:abc123'', image_url = None, gender = None,
      birth_date = None, lang = None\<rparr>"

definition example_compareSync :: "string \<Rightarrow> string \<Rightarrow> bool" where
  "example_compareSync pw h = (h = ''hash:'' @ pw)"

definition example_hashSync :: "string \<Rightarrow> string" where
  "example_hashSync pw = ''hash:'' @ pw"

text \<open>One customer, who trusts the device \<open>devX\<close>, holds the token \<open>T1\<close> and has been
  sent the code 123456, good until instant 120000.\<close>

definition example_state :: state where
  "example_state =
     \<lparr>customers_tbl = [example_customer],
      devices_tbl = [\<lparr>dev_customer_id = ''c1'', dev_uid = ''devX''\<rparr>],
      customers_h = [''c1'' \<mapsto> ''T1''],
      tokens_h = [''T1'' \<mapsto> \<lparr>tk_id = ''c1'', tk_role = ''customer'', tk_expiresAt = 3600000\<rparr>],
      otp_h = [''998901234567'' \<mapsto> \<lparr>code = 123456, expiresAt = 120000\<rparr>],
      customer_login_h = Map.empty\<rparr>"

definition example_inputs :: "string \<Rightarrow> string option \<Rightarrow> string option \<Rightarrow> login_inputs" where
  "example_inputs dev pw otpv =
     \<lparr>in_phone = ''998901234567'', in_password = pw, in_trust = False, in_otp = otpv,
      in_deviceId = dev\<rparr>"

text \<open>The example customer blocked by a failure at instant 1000.\<close>

definition blocked_state :: state where
  "blocked_state =
     example_state\<lparr>customer_login_h :=
       [''998901234567'' \<mapsto>
          \<lparr>last_login_attempt = Some 1000, safe_login_after = 0, is_blocked = True\<rparr>]\<rparr>"

text \<open>A wrong password from a device the example customer does not trust.\<close>

definition wrong_password :: login_inputs where
  "wrong_password = example_inputs ''devY'' (Some ''guess1'') None"

text \<open>The code 123456 submitted from the trusted device.\<close>

definition otp_login :: login_inputs where
  "otp_login = example_inputs ''devX'' None (Some ''123456'')"

text \<open>The login-type query of the example customer from the trusted device, and the
  right password from a device the customer does not trust.\<close>

definition type_query :: type_inputs where
  "type_query = \<lparr>lt_phone = ''998901234567'', lt_deviceId = Some ''devX''\<rparr>"

definition right_password :: login_inputs where
  "right_password = example_inputs ''devY'' (Some ''abc123'') None"

text \<open>The stores fail at one site only; a registration that asks to trust its device.\<close>

definition fail_at :: "io_site \<Rightarrow> faults" where
  "fail_at site = (\<lambda>x. x = site)"

definition register_request :: register_inputs where
  "register_request =
     \<lparr>rg_name = ''Vali'', rg_phone = ''998900000001'', rg_password = ''abc123'',
      rg_trust = True, rg_deviceId = ''devZ''\<rparr>"

section \<open>Facts about the steps\<close>

lemmas login_steps =
  loginCustomer_def login_findCustomer_def login_checkBlocked_def login_determineType_def
  login_checkCredentials_def login_recordOutcome_def login_trustDevice_def
  login_deleteOldToken_def saveToken_def hDel_otp_def failedStatus_def emptyStatus_def
  getOneByPhone_def getOneByUid_def createDevice_def required_def isBefore_def
  add_seconds_def diff_seconds_def

lemmas example_data =
  example_state_def example_customer_def example_inputs_def example_compareSync_def
  no_faults_def


lemma add_seconds_Some: "add_seconds (Some l) n = Some (l + n * 1000)"
  by (simp add: add_seconds_def)

lemma findCustomer_hd:
  assumes "getOneByPhone s (in_phone inputs) = c # cs" and "\<not> f Login_getOneByPhone"
  shows "login_findCustomer f s inputs = Inr c"
  using assms by (simp add: login_findCustomer_def)

lemma getOneByPhone_phone:
  assumes "getOneByPhone s ph = c # cs"
  shows "cust_phone c = ph"
proof -
  from assms have "c \<in> set (filter (\<lambda>c. cust_phone c = ph) (customers_tbl s))"
    by (simp add: getOneByPhone_def)
  then show ?thesis by simp
qed

lemma checkCredentials_False_state:
  assumes "fst (login_checkCredentials f cmp s now c inputs lt) = Inr False"
  shows "login_checkCredentials f cmp s now c inputs lt = (Inr False, s)"
  using assms
  by (auto simp: login_checkCredentials_def split: if_splits option.splits)

lemma credentialCheckFailsD:
  assumes "credentialCheckFails f cmp s now inputs"
  obtains c lt where "login_findCustomer f s inputs = Inr c"
    and "login_determineType f s inputs = Inr lt"
    and "login_checkCredentials f cmp s now c inputs lt = (Inr False, s)"
    and "cust_phone c = in_phone inputs"
proof -
  from assms obtain c where c: "login_findCustomer f s inputs = Inr c"
    by (auto simp: credentialCheckFails_def split: sum.splits)
  with assms obtain lt where lt: "login_determineType f s inputs = Inr lt"
    by (auto simp: credentialCheckFails_def split: sum.splits)
  from assms c lt have "fst (login_checkCredentials f cmp s now c inputs lt) = Inr False"
    by (simp add: credentialCheckFails_def)
  then have cc: "login_checkCredentials f cmp s now c inputs lt = (Inr False, s)"
    by (rule checkCredentials_False_state)
  from c have "cust_phone c = in_phone inputs"
    by (auto simp: login_findCustomer_def split: if_splits list.splits dest: getOneByPhone_phone)
  with c lt cc show ?thesis by (rule that)
qed

lemma login_failed:
  assumes "credentialCheckFails f cmp s now inputs"
    and "login_checkBlocked f s now inputs = Inr st"
    and "\<not> f Login_hSet_customer_login"
  shows "\<exists>e. loginCustomer f cmp s now (Some inputs) tok =
           (Inl e, s\<lparr>customer_login_h :=
                      (customer_login_h s)(in_phone inputs \<mapsto> failedStatus now st)\<rparr>)
         \<and> (if is_blocked (failedStatus now st) then e = USER_BLOCKED 60
            else e = WRONG_PASSWORD \<or> e = WRONG_OTP)"
proof -
  from assms(1) obtain c lt where c: "login_findCustomer f s inputs = Inr c"
    and lt: "login_determineType f s inputs = Inr lt"
    and cc: "login_checkCredentials f cmp s now c inputs lt = (Inr False, s)"
    and ph: "cust_phone c = in_phone inputs"
    by (rule credentialCheckFailsD)
  show ?thesis
    using assms(2,3) c lt cc ph
    by (simp add: loginCustomer_def login_recordOutcome_def Let_def)
qed

lemma failedStatus_empty:
  "failedStatus now emptyStatus =
     \<lparr>last_login_attempt = Some now, safe_login_after = 0, is_blocked = False\<rparr>"
  by (simp add: failedStatus_def emptyStatus_def)

lemma failedStatus_slow:
  assumes "last_login_attempt st = Some l" and "l + safe_login_after st * 1000 \<le> now"
  shows "failedStatus now st =
     st\<lparr>safe_login_after := max (60 - diff_seconds now l) 0, last_login_attempt := Some now\<rparr>"
  using assms by (simp add: failedStatus_def isBefore_def add_seconds_Some)

lemma failedStatus_rapid:
  assumes "last_login_attempt st = Some l" and "now < l + safe_login_after st * 1000"
  shows "failedStatus now st =
     st\<lparr>is_blocked := True, safe_login_after := 0, last_login_attempt := Some now\<rparr>"
  using assms by (simp add: failedStatus_def isBefore_def add_seconds_Some)

lemma checkBlocked_None:
  assumes "customer_login_h s (in_phone inputs) = None" and "\<not> f Login_hGet_customer_login"
  shows "login_checkBlocked f s now inputs = Inr emptyStatus"
  using assms by (simp add: login_checkBlocked_def)

lemma checkBlocked_unblocked:
  assumes "customer_login_h s (in_phone inputs) = Some st" and "\<not> is_blocked st"
    and "\<not> f Login_hGet_customer_login"
  shows "login_checkBlocked f s now inputs = Inr st"
  using assms by (simp add: login_checkBlocked_def)

lemma rapid_window:
  fixes t1 t2 t3 :: int
  assumes "t1 \<le> t2" and "t2 \<le> t3" and "t3 < t1 + 60000"
  shows "t3 < t2 + max (60 - (t2 - t1) div 1000) 0 * 1000"
  using assms by (simp add: max_def) arith

lemmas parseInt_defs =
  parseInt_def parseInt_unsigned_def parseInt_decimal_def parseInt_hex_def is_space_def
  is_digit_def is_hex_digit_def digits_val_def hex_val_def digit_val_def hex_digit_val_def

lemma parseInt_example: "parseInt (Some ''123456'') = Some 123456"
  by (simp add: parseInt_defs)

lemma parseInt_hex_example:
  "parseInt (Some ''0x1E240'') = Some 123456" and "parseInt (Some ''0x'') = None"
  and "parseInt (Some ''12ab'') = Some 12" and "parseInt (Some '' -0X1f'') = Some (- 31)"
  by (simp_all add: parseInt_defs)

lemma checkCredentials_login_frame:
  "customer_login_h (snd (login_checkCredentials f cmp s now c i lt)) = customer_login_h s"
  by (simp add: login_checkCredentials_def hDel_otp_def split: option.splits)

lemma findCustomer_not_expired: "login_findCustomer f s i \<noteq> Inl EXPIRED_OTP"
  by (simp add: login_findCustomer_def split: list.splits)

lemma checkBlocked_not_expired: "login_checkBlocked f s now i \<noteq> Inl EXPIRED_OTP"
  by (simp add: login_checkBlocked_def split: option.splits)

lemma determineType_not_expired: "login_determineType f s i \<noteq> Inl EXPIRED_OTP"
  by (simp add: login_determineType_def Let_def)

lemma recordOutcome_not_expired:
  "fst (login_recordOutcome f s now c st ok lt) \<noteq> Inl EXPIRED_OTP"
  by (simp add: login_recordOutcome_def Let_def)

lemma trustDevice_not_expired: "fst (login_trustDevice f s c i) \<noteq> Inl EXPIRED_OTP"
  by (simp add: login_trustDevice_def)

lemma deleteOldToken_not_expired: "fst (login_deleteOldToken f s c) \<noteq> Inl EXPIRED_OTP"
  by (simp add: login_deleteOldToken_def)

lemma saveToken_not_expired: "fst (saveToken f a b s now cid tok) \<noteq> Inl EXPIRED_OTP"
  by (simp add: saveToken_def Let_def)

lemma login_expired_frame:
  assumes "fst (loginCustomer f cmp s now vd tok) = Inl EXPIRED_OTP"
  shows "customer_login_h (snd (loginCustomer f cmp s now vd tok)) = customer_login_h s"
proof (cases vd)
  case None
  then show ?thesis by (simp add: loginCustomer_def)
next
  case (Some inputs)
  show ?thesis
  proof (cases "login_findCustomer f s inputs")
    case (Inl e)
    then show ?thesis by (simp add: loginCustomer_def Some)
  next
    case c: (Inr customer)
    show ?thesis
    proof (cases "login_checkBlocked f s now inputs")
      case (Inl e)
      then show ?thesis by (simp add: loginCustomer_def Some c)
    next
      case b: (Inr customerStatus)
      show ?thesis
      proof (cases "login_determineType f s inputs")
        case (Inl e)
        then show ?thesis by (simp add: loginCustomer_def Some c b)
      next
        case t: (Inr loginType)
        obtain r1 s1 where cc:
          "login_checkCredentials f cmp s now customer inputs loginType = (r1, s1)"
          by (cases "login_checkCredentials f cmp s now customer inputs loginType")
        have fr: "customer_login_h s1 = customer_login_h s"
          using checkCredentials_login_frame [of f cmp s now customer inputs loginType] cc
          by simp
        show ?thesis
        proof (cases r1)
          case (Inl e)
          then show ?thesis by (simp add: loginCustomer_def Some c b t cc fr)
        next
          case ok: (Inr isValid)
          obtain r2 s2 where ro:
            "login_recordOutcome f s1 now customer customerStatus isValid loginType = (r2, s2)"
            by (cases "login_recordOutcome f s1 now customer customerStatus isValid loginType")
          have n2: "r2 \<noteq> Inl EXPIRED_OTP"
            using recordOutcome_not_expired [of f s1 now customer customerStatus isValid loginType]
              ro by simp
          show ?thesis
          proof (cases r2)
            case (Inl e)
            with n2 assms show ?thesis by (simp add: loginCustomer_def Some c b t cc ok ro)
          next
            case u2: (Inr u)
            obtain r3 s3 where td: "login_trustDevice f s2 customer inputs = (r3, s3)"
              by (cases "login_trustDevice f s2 customer inputs")
            have n3: "r3 \<noteq> Inl EXPIRED_OTP"
              using trustDevice_not_expired [of f s2 customer inputs] td by simp
            show ?thesis
            proof (cases r3)
              case (Inl e)
              with n3 assms show ?thesis
                by (simp add: loginCustomer_def Some c b t cc ok ro u2 td)
            next
              case u3: (Inr u')
              obtain r4 s4 where dt: "login_deleteOldToken f s3 customer = (r4, s4)"
                by (cases "login_deleteOldToken f s3 customer")
              have n4: "r4 \<noteq> Inl EXPIRED_OTP"
                using deleteOldToken_not_expired [of f s3 customer] dt by simp
              show ?thesis
              proof (cases r4)
                case (Inl e)
                with n4 assms show ?thesis
                  by (simp add: loginCustomer_def Some c b t cc ok ro u2 td u3 dt)
              next
                case u4: (Inr u'')
                have "fst (loginCustomer f cmp s now vd tok) =
                  fst (saveToken f Login_hSet_customers Login_hSet_tokens s4 now
                         (cust_id customer) tok)"
                  by (simp add: loginCustomer_def Some c b t cc ok ro u2 td u3 dt u4)
                with assms show ?thesis
                  using saveToken_not_expired
                    [of f Login_hSet_customers Login_hSet_tokens s4 now "cust_id customer" tok]
                  by simp
              qed
            qed
          qed
        qed
      qed
    qed
  qed
qed

lemma login_success_steps:
  assumes "loginCustomer f cmp s now (Some inputs) tok = (Inr t, s')"
  obtains customer customerStatus loginType isValid s1 s2 s3 s4 where
    "login_findCustomer f s inputs = Inr customer"
    "login_checkBlocked f s now inputs = Inr customerStatus"
    "login_determineType f s inputs = Inr loginType"
    "login_checkCredentials f cmp s now customer inputs loginType = (Inr isValid, s1)"
    "login_recordOutcome f s1 now customer customerStatus isValid loginType = (Inr (), s2)"
    "login_trustDevice f s2 customer inputs = (Inr (), s3)"
    "login_deleteOldToken f s3 customer = (Inr (), s4)"
    "saveToken f Login_hSet_customers Login_hSet_tokens s4 now (cust_id customer) tok = (Inr t, s')"
  using assms
  by (auto simp: loginCustomer_def split: sum.splits prod.splits)

lemma checkCredentials_tokens:
  assumes "login_checkCredentials f cmp s now c i lt = (r, s1)"
  shows "customers_h s1 = customers_h s \<and> tokens_h s1 = tokens_h s"
  using assms
  by (auto simp: login_checkCredentials_def hDel_otp_def split: if_splits option.splits)

lemma recordOutcome_tokens:
  assumes "login_recordOutcome f s now c st ok lt = (r, s1)"
  shows "customers_h s1 = customers_h s \<and> tokens_h s1 = tokens_h s"
  using assms
  by (auto simp: login_recordOutcome_def Let_def split: if_splits)

lemma trustDevice_tokens:
  assumes "login_trustDevice f s c i = (r, s1)"
  shows "customers_h s1 = customers_h s \<and> tokens_h s1 = tokens_h s"
  using assms
  by (auto simp: login_trustDevice_def createDevice_def split: if_splits)

lemma deleteOldToken_deletes:
  assumes "login_deleteOldToken f s c = (Inr u, s1)"
    and "customers_h s (cust_id c) = Some oldToken"
    and "oldToken \<noteq> []" and "\<not> f Login_hDel_tokens"
  shows "customers_h s1 = customers_h s \<and> tokens_h s1 = (tokens_h s)(oldToken := None)"
  using assms
  by (auto simp: login_deleteOldToken_def split: if_splits)

lemma saveToken_success:
  assumes "saveToken f a b s now cid tok = (Inr t, s1)"
  shows "t = tok \<and> customers_h s1 = (customers_h s)(cid \<mapsto> tok)
       \<and> tokens_h s1 = (tokens_h s)(tok \<mapsto>
            \<lparr>tk_id = cid, tk_role = ''customer'', tk_expiresAt = now + 3600000\<rparr>)"
  using assms
  by (auto simp: saveToken_def Let_def split: if_splits)

lemma login_type_frame:
  "customers_tbl (snd (getCustomerLoginType f s now vd rnd)) = customers_tbl s
   \<and> devices_tbl (snd (getCustomerLoginType f s now vd rnd)) = devices_tbl s
   \<and> customers_h (snd (getCustomerLoginType f s now vd rnd)) = customers_h s
   \<and> tokens_h (snd (getCustomerLoginType f s now vd rnd)) = tokens_h s
   \<and> customer_login_h (snd (getCustomerLoginType f s now vd rnd)) = customer_login_h s"
  by (simp add: getCustomerLoginType_def Let_def split: option.splits)

lemma deleteCustomer_created:
  "getOneById (deleteCustomer (s\<lparr>customers_tbl := customers_tbl s0 @ [c]\<rparr>) (cust_id c))
     (cust_id c) = []"
  by (simp add: getOneById_def deleteCustomer_def filter_empty_conv)

lemma deleteCustomer_fresh:
  assumes "\<forall>x \<in> set (customers_tbl s0). cust_id x \<noteq> cust_id c"
  shows "customers_tbl (deleteCustomer (s\<lparr>customers_tbl := customers_tbl s0 @ [c]\<rparr>) (cust_id c))
           = customers_tbl s0"
  using assms by (simp add: deleteCustomer_def filter_id_conv)

lemma register_before_creation:
  assumes "registerCustomer f hashSync s now validData newId tok = (r, s')"
    and "validData = None \<or> f Reg_getOneByPhone
         \<or> (\<exists>i. validData = Some i \<and> getOneByPhone s (rg_phone i) \<noteq> []) \<or> f Reg_create"
  shows "s' = s \<and>
         r = Inl (case validData of
                    None \<Rightarrow> ValidationError
                  | Some i \<Rightarrow>
                      if f Reg_getOneByPhone then IO_ERROR Reg_getOneByPhone
                      else if getOneByPhone s (rg_phone i) \<noteq> [] then NUMBER_TAKEN
                      else IO_ERROR Reg_create)"
  using assms
  by (auto simp: registerCustomer_def register_waterfall_def split: option.splits)

lemma waterfall_after_creation:
  assumes "\<not> f Reg_getOneByPhone" and "getOneByPhone s (rg_phone i) = []" and "\<not> f Reg_create"
  shows "register_waterfall f hashSync s now (Some i) newId tok =
     (let newCustomer = newRow newId (rg_name i) (rg_phone i) (hashSync (rg_password i));
          s1 = createCustomer s newCustomer in
      if f Reg_hSet_customers then (Inl (IO_ERROR Reg_hSet_customers), s1, Some newCustomer)
      else
        let s2 = s1\<lparr>customers_h := (customers_h s1)(newId \<mapsto> tok)\<rparr> in
        if f Reg_hSet_tokens then (Inl (IO_ERROR Reg_hSet_tokens), s2, Some newCustomer)
        else
          let s3 = s2\<lparr>tokens_h := (tokens_h s2)(tok \<mapsto>
                 \<lparr>tk_id = newId, tk_role = ''customer'', tk_expiresAt = now + 3600000\<rparr>)\<rparr> in
          if rg_trust i then
            (if f Reg_createDevice then (Inl (IO_ERROR Reg_createDevice), s3, Some newCustomer)
             else (Inr tok, createDevice s3 newId (rg_deviceId i), Some newCustomer))
          else (Inr tok, s3, Some newCustomer))"
  using assms
  by (simp add: register_waterfall_def saveToken_def Let_def newRow_def)

lemma register_after_creation:
  assumes run: "registerCustomer f hashSync s now (Some i) newId tok = (r, s')"
    and pre: "\<not> f Reg_getOneByPhone" "getOneByPhone s (rg_phone i) = []" "\<not> f Reg_create"
    and fails: "f Reg_hSet_customers \<or> f Reg_hSet_tokens \<or> (rg_trust i \<and> f Reg_createDevice)"
  shows "r = Inl (IO_ERROR (if f Reg_hSet_customers then Reg_hSet_customers
                            else if f Reg_hSet_tokens then Reg_hSet_tokens
                            else Reg_createDevice))
       \<and> devices_tbl s' = devices_tbl s
       \<and> (\<not> f Reg_delete \<longrightarrow>
            getOneById s' newId = []
            \<and> ((\<forall>c \<in> set (customers_tbl s). cust_id c \<noteq> newId)
                 \<longrightarrow> customers_tbl s' = customers_tbl s))"
proof -
  let ?c = "newRow newId (rg_name i) (rg_phone i) (hashSync (rg_password i))"
  have id: "cust_id ?c = newId" by (simp add: newRow_def)
  have del: "getOneById (deleteCustomer (x\<lparr>customers_tbl := customers_tbl s @ [?c]\<rparr>) newId) newId = []"
    for x using deleteCustomer_created [where s = x and ?s0.0 = s and c = ?c] by (simp add: id)
  have fr: "(\<forall>c \<in> set (customers_tbl s). cust_id c \<noteq> newId) \<Longrightarrow>
      customers_tbl (deleteCustomer (x\<lparr>customers_tbl := customers_tbl s @ [?c]\<rparr>) newId)
        = customers_tbl s" for x
    using deleteCustomer_fresh [where s = x and ?s0.0 = s and c = ?c] by (simp add: id)
  show ?thesis
  proof (cases "f Reg_hSet_customers")
    case True
    with run pre show ?thesis
      using del [of s] fr [of s]
      by (auto simp: registerCustomer_def waterfall_after_creation Let_def createCustomer_def id
          deleteCustomer_def)
  next
    case F1: False
    show ?thesis
    proof (cases "f Reg_hSet_tokens")
      case True
      with run pre F1 show ?thesis
        using del [of "s\<lparr>customers_h := (customers_h s)(newId \<mapsto> tok)\<rparr>"]
          fr [of "s\<lparr>customers_h := (customers_h s)(newId \<mapsto> tok)\<rparr>"]
        by (auto simp: registerCustomer_def waterfall_after_creation Let_def createCustomer_def id
            deleteCustomer_def)
    next
      case F2: False
      with fails F1 have T: "rg_trust i" "f Reg_createDevice" by auto
      let ?x = "s\<lparr>customers_h := (customers_h s)(newId \<mapsto> tok),
                  tokens_h := (tokens_h s)(tok \<mapsto>
                 \<lparr>tk_id = newId, tk_role = ''customer'', tk_expiresAt = now + 3600000\<rparr>)\<rparr>"
      from run pre F1 F2 T show ?thesis
        using del [of ?x] fr [of ?x]
        by (auto simp: registerCustomer_def waterfall_after_creation Let_def createCustomer_def id
            deleteCustomer_def)
    qed
  qed
qed


lemma register_success:
  assumes run: "registerCustomer f hashSync s now (Some i) newId tok = (r, s')"
    and pre: "\<not> f Reg_getOneByPhone" "getOneByPhone s (rg_phone i) = []" "\<not> f Reg_create"
    and ok: "\<not> (f Reg_hSet_customers \<or> f Reg_hSet_tokens \<or> (rg_trust i \<and> f Reg_createDevice))"
  shows "r = Inr tok
       \<and> customers_tbl s' =
           customers_tbl s @ [newRow newId (rg_name i) (rg_phone i) (hashSync (rg_password i))]"
  using run pre ok
  by (auto simp: registerCustomer_def waterfall_after_creation Let_def createCustomer_def
      createDevice_def split: if_splits)

lemma char_of_digit: "char_of (48::nat) = CHR ''0''" "char_of (49::nat) = CHR ''1''"
  "char_of (50::nat) = CHR ''2''" "char_of (51::nat) = CHR ''3''" "char_of (52::nat) = CHR ''4''"
  "char_of (53::nat) = CHR ''5''" "char_of (54::nat) = CHR ''6''" "char_of (55::nat) = CHR ''7''"
  "char_of (56::nat) = CHR ''8''" "char_of (57::nat) = CHR ''9''"
  by (simp_all add: char_of_def bit_iff_odd)

lemma toString_example: "toString 123456 = ''123456''"
  by (simp add: toString_def nat_toString.simps char_of_digit)

lemma nat_toString_digits: "\<forall>c \<in> set (nat_toString n). is_digit c"
proof (induction n rule: nat_toString.induct)
  case (1 n)
  show ?case
  proof (cases "n < 10")
    case True
    then show ?thesis by (subst nat_toString.simps) (simp add: is_digit_def)
  next
    case False
    have "n mod 10 < 10" by simp
    then have "is_digit (char_of (48 + n mod 10))"
      by (simp add: is_digit_def)
    with False 1 show ?thesis by (subst nat_toString.simps) simp
  qed
qed

lemma nat_toString_nonempty: "nat_toString n \<noteq> []"
  by (subst nat_toString.simps) simp

lemma digits_val_snoc: "digits_val (ds @ [c]) = digits_val ds * 10 + digit_val c"
  by (simp add: digits_val_def)

lemma digit_val_char: "d < 10 \<Longrightarrow> digit_val (char_of (48 + d :: nat)) = int d"
  by (simp add: digit_val_def)

lemma nat_toString_val: "digits_val (nat_toString n) = int n"
proof (induction n rule: nat_toString.induct)
  case (1 n)
  show ?case
  proof (cases "n < 10")
    case True
    then show ?thesis
      by (subst nat_toString.simps) (simp add: digits_val_def digit_val_char)
  next
    case False
    have "digits_val (nat_toString n) =
            digits_val (nat_toString (n div 10)) * 10 + digit_val (char_of (48 + n mod 10))"
      using False by (subst nat_toString.simps) (simp add: digits_val_snoc)
    also have "\<dots> = int (n div 10) * 10 + int (n mod 10)"
      using False 1 by (simp add: digit_val_char)
    also have "\<dots> = int n"
      by presburger
    finally show ?thesis .
  qed
qed

lemma parseInt_decimal_toString: "parseInt_decimal (nat_toString n) = Some (int n)"
proof -
  have "\<forall>c \<in> set (nat_toString n). is_digit c"
    by (rule nat_toString_digits)
  then have tw: "takeWhile is_digit (nat_toString n) = nat_toString n"
    by (simp only: takeWhile_eq_all_conv)
  show ?thesis
    unfolding parseInt_decimal_def Let_def tw
    by (simp add: nat_toString_nonempty nat_toString_val)
qed

lemma parseInt_unsigned_digits:
  assumes "\<forall>c \<in> set cs. is_digit c"
  shows "parseInt_unsigned cs = parseInt_decimal cs"
proof (cases cs)
  case Nil
  then show ?thesis by (simp add: parseInt_unsigned_def)
next
  case c: (Cons c rest)
  show ?thesis
  proof (cases rest)
    case Nil
    with c show ?thesis by (simp add: parseInt_unsigned_def)
  next
    case (Cons x rest')
    with c assms have "is_digit x" by simp
    then have "x \<noteq> CHR ''x''" and "x \<noteq> CHR ''X''"
      by (auto simp: is_digit_def)
    with c Cons show ?thesis by (simp add: parseInt_unsigned_def)
  qed
qed

lemma parseInt_unsigned_toString: "parseInt_unsigned (nat_toString n) = Some (int n)"
  using parseInt_unsigned_digits [OF nat_toString_digits, of n]
  by (simp add: parseInt_decimal_toString)

lemma parseInt_toString: "parseInt (Some (toString n)) = Some n"
proof (cases "n < 0")
  case True
  then show ?thesis
    by (simp add: parseInt_def toString_def is_space_def parseInt_unsigned_toString)
next
  case False
  obtain c cs where cs: "nat_toString (nat n) = c # cs"
    using nat_toString_nonempty [of "nat n"] by (cases "nat_toString (nat n)") auto
  then have d: "is_digit c"
    using nat_toString_digits [of "nat n"] by simp
  then have "\<not> is_space c" and "c \<noteq> CHR ''-''" and "c \<noteq> CHR ''+''"
    by (auto simp: is_digit_def is_space_def)
  with False cs show ?thesis
    using parseInt_unsigned_toString [of "nat n"]
    by (simp add: parseInt_def toString_def)
qed

lemma rowObject_hidden:
  "(rowObject (c\<lparr>hashed_password := h\<rparr>))(''hashed_password'' := None)
     = (rowObject c)(''hashed_password'' := None)"
  by (simp add: rowObject_def fun_eq_iff)

lemma rowObject_image:
  "rowObject (c\<lparr>hashed_password := h\<rparr>) ''image_url'' = rowObject c ''image_url''"
  by (simp add: rowObject_def)

lemma getOneById_map:
  "getOneById (s\<lparr>customers_tbl := map (\<lambda>c. c\<lparr>hashed_password := h c\<rparr>) (customers_tbl s)\<rparr>) i
     = map (\<lambda>c. c\<lparr>hashed_password := h c\<rparr>) (getOneById s i)"
  by (simp add: getOneById_def filter_map o_def)

lemma parseInt_required: "parseInt v = Some n \<Longrightarrow> required v"
  by (cases v) (auto simp: parseInt_def required_def)

lemma checkCredentials_otp_valid:
  assumes "otp_h s (cust_phone customer) = Some otpObject"
    and "now < expiresAt otpObject"
    and "parseInt (in_otp inputs) = Some (code otpObject)"
    and "\<not> f Login_hGet_otp" and "\<not> f Login_hDel_otp"
  shows "login_checkCredentials f compareSync s now customer inputs Otp =
           (Inr True, s\<lparr>otp_h := (otp_h s)(cust_phone customer := None)\<rparr>)"
  using assms by (simp add: login_checkCredentials_def hDel_otp_def)

lemma checkCredentials_otp_absent:
  assumes "otp_h s (cust_phone customer) = None" and "\<not> f Login_hGet_otp"
  shows "login_checkCredentials f compareSync s now customer inputs Otp = (Inr False, s)"
  using assms by (simp add: login_checkCredentials_def)

lemma no_faults_at: "\<not> no_faults site"
  by (simp add: no_faults_def)

lemma login_valid_run:
  assumes fc: "login_findCustomer no_faults s inputs = Inr c"
    and nb: "login_checkBlocked no_faults s now inputs = Inr st"
    and dt: "login_determineType no_faults s inputs = Inr lt"
    and cc: "login_checkCredentials no_faults cmp s now c inputs lt = (Inr True, s1)"
  shows "fst (loginCustomer no_faults cmp s now (Some inputs) tok) = Inr tok"
    and "otp_h (snd (loginCustomer no_faults cmp s now (Some inputs) tok)) = otp_h s1"
    and "customer_login_h (snd (loginCustomer no_faults cmp s now (Some inputs) tok))
           = (customer_login_h s1)(cust_phone c := None)"
    and "customers_tbl (snd (loginCustomer no_faults cmp s now (Some inputs) tok))
           = customers_tbl s1"
    and "devices_tbl (snd (loginCustomer no_faults cmp s now (Some inputs) tok))
           = (if in_trust inputs
              then devices_tbl s1 @ [\<lparr>dev_customer_id = cust_id c, dev_uid = in_deviceId inputs\<rparr>]
              else devices_tbl s1)"
  by (simp_all add: loginCustomer_def fc nb dt cc login_recordOutcome_def login_trustDevice_def
      login_deleteOldToken_def saveToken_def createDevice_def no_faults_at Let_def
      split: option.splits)

lemma login_failed_steps:
  assumes "login_findCustomer f s inputs = Inr c"
    and "login_checkBlocked f s now inputs = Inr st"
    and "login_determineType f s inputs = Inr lt"
    and "login_checkCredentials f cmp s now c inputs lt = (Inr False, s)"
    and "cust_phone c = in_phone inputs"
    and "\<not> f Login_hSet_customer_login"
  shows "loginCustomer f cmp s now (Some inputs) tok =
           (Inl (if is_blocked (failedStatus now st) then USER_BLOCKED 60
                 else if lt = Password then WRONG_PASSWORD else WRONG_OTP),
            s\<lparr>customer_login_h :=
                      (customer_login_h s)(in_phone inputs \<mapsto> failedStatus now st)\<rparr>)"
  using assms by (simp add: loginCustomer_def login_recordOutcome_def Let_def)

lemma getOneByUid_more_devices:
  assumes "getOneByUid s uid ph \<noteq> []"
    and "customers_tbl s' = customers_tbl s"
    and "set (devices_tbl s) \<subseteq> set (devices_tbl s')"
  shows "getOneByUid s' uid ph \<noteq> []"
  using assms by (auto simp: getOneByUid_def filter_empty_conv)

section \<open>Lockout\<close>

text \<open>
  C1, as stated, fails when the three failures span exactly 60 seconds. The example
  customer, without a status record, gives a wrong password at instants 0, 5000 and 60000.
  The second failure leaves a cooldown of \<open>60 - 5 = 55\<close> seconds counted from instant
  5000, which ends at instant 60000; the third failure is not before that instant, so it
  is answered \<open>WRONG_PASSWORD\<close> and the status it stores is not blocked.
\<close>

theorem third_failure_at_60s_counterexample:
  "customer_login_h example_state ''998901234567'' = None
   \<and> (60000 :: int) - 0 \<le> 60 * 1000
   \<and> credentialCheckFails no_faults example_compareSync example_state 0 wrong_password
   \<and> credentialCheckFails no_faults example_compareSync
        (snd (loginCustomer no_faults example_compareSync example_state 0
                (Some wrong_password) ''K1''))
        5000 wrong_password
   \<and> credentialCheckFails no_faults example_compareSync
        (snd (loginCustomer no_faults example_compareSync
                (snd (loginCustomer no_faults example_compareSync example_state 0
                        (Some wrong_password) ''K1''))
                5000 (Some wrong_password) ''K2''))
        60000 wrong_password
   \<and> loginCustomer no_faults example_compareSync
        (snd (loginCustomer no_faults example_compareSync
                (snd (loginCustomer no_faults example_compareSync example_state 0
                        (Some wrong_password) ''K1''))
                5000 (Some wrong_password) ''K2''))
        60000 (Some wrong_password) ''K3''
      = (Inl WRONG_PASSWORD,
         example_state\<lparr>customer_login_h := [''998901234567'' \<mapsto>
           \<lparr>last_login_attempt = Some 60000, safe_login_after = 5, is_blocked = False\<rparr>]\<rparr>)"
  by (simp add: credentialCheckFails_def login_steps example_data wrong_password_def)

text \<open>
  C1, amended. A phone has no status record. Three login attempts for it fail their
  credential check at instants \<open>t1 \<le> t2 \<le> t3\<close>, the third less than 60 seconds after
  the first (\<open>t3 < t1 + 60000\<close>). The first two are answered \<open>WRONG_PASSWORD\<close> or
  \<open>WRONG_OTP\<close>; the third is answered \<open>USER_BLOCKED\<close> with 60 seconds, and the status
  it stores is blocked.
\<close>

theorem third_failure_blocks:
  assumes none: "customer_login_h s0 ph = None"
    and ph: "in_phone i1 = ph" "in_phone i2 = ph" "in_phone i3 = ph"
    and times: "t1 \<le> t2" "t2 \<le> t3" "t3 < t1 + 60000"
    and nf: "\<not> f Login_hGet_customer_login" "\<not> f Login_hSet_customer_login"
    and r1: "loginCustomer f cmp s0 t1 (Some i1) k1 = (r1, s1)"
    and c1: "credentialCheckFails f cmp s0 t1 i1"
    and r2: "loginCustomer f cmp s1 t2 (Some i2) k2 = (r2, s2)"
    and c2: "credentialCheckFails f cmp s1 t2 i2"
    and r3: "loginCustomer f cmp s2 t3 (Some i3) k3 = (r3, s3)"
    and c3: "credentialCheckFails f cmp s2 t3 i3"
  shows "(r1 = Inl WRONG_PASSWORD \<or> r1 = Inl WRONG_OTP)
       \<and> (r2 = Inl WRONG_PASSWORD \<or> r2 = Inl WRONG_OTP)
       \<and> r3 = Inl (USER_BLOCKED 60)
       \<and> customer_login_h s3 ph =
           Some \<lparr>last_login_attempt = Some t3, safe_login_after = 0, is_blocked = True\<rparr>"
proof -
  \<comment> \<open>first failure\<close>
  have b1: "login_checkBlocked f s0 t1 i1 = Inr emptyStatus"
    using none ph(1) nf(1) by (simp add: checkBlocked_None)
  from login_failed [OF c1 b1 nf(2), of k1] r1
  have e1: "r1 = Inl WRONG_PASSWORD \<or> r1 = Inl WRONG_OTP"
    and s1: "s1 = s0\<lparr>customer_login_h := (customer_login_h s0)(ph \<mapsto>
               \<lparr>last_login_attempt = Some t1, safe_login_after = 0, is_blocked = False\<rparr>)\<rparr>"
    by (auto simp: failedStatus_empty ph)
  \<comment> \<open>second failure\<close>
  let ?st1 = "\<lparr>last_login_attempt = Some t1, safe_login_after = 0, is_blocked = False\<rparr>"
  have b2: "login_checkBlocked f s1 t2 i2 = Inr ?st1"
    using nf(1) by (simp add: checkBlocked_unblocked s1 ph)
  let ?safe = "max (60 - diff_seconds t2 t1) 0"
  let ?st2 = "\<lparr>last_login_attempt = Some t2, safe_login_after = ?safe, is_blocked = False\<rparr>"
  have f2: "failedStatus t2 ?st1 = ?st2"
    using times(1) by (simp add: failedStatus_slow)
  from login_failed [OF c2 b2 nf(2), of k2] r2
  have e2: "r2 = Inl WRONG_PASSWORD \<or> r2 = Inl WRONG_OTP"
    and s2: "s2 = s1\<lparr>customer_login_h := (customer_login_h s1)(ph \<mapsto> ?st2)\<rparr>"
    by (auto simp: f2 ph)
  \<comment> \<open>third failure\<close>
  have b3: "login_checkBlocked f s2 t3 i3 = Inr ?st2"
    using nf(1) by (simp add: checkBlocked_unblocked s2 ph)
  have "t3 < t2 + ?safe * 1000"
    using times by (simp add: diff_seconds_def rapid_window)
  then have f3: "failedStatus t3 ?st2 =
      \<lparr>last_login_attempt = Some t3, safe_login_after = 0, is_blocked = True\<rparr>"
    by (simp add: failedStatus_rapid)
  from login_failed [OF c3 b3 nf(2), of k3] r3
  have e3: "r3 = Inl (USER_BLOCKED 60)"
    and s3: "s3 = s2\<lparr>customer_login_h := (customer_login_h s2)(ph \<mapsto>
       \<lparr>last_login_attempt = Some t3, safe_login_after = 0, is_blocked = True\<rparr>)\<rparr>"
    by (auto simp: f3 ph)
  show ?thesis using e1 e2 e3 s3 by simp
qed


text \<open>Three wrong passwords at instants 0, 5000 and 10000.\<close>

theorem third_failure_blocks_witness:
  "fst (loginCustomer no_faults example_compareSync
         (snd (loginCustomer no_faults example_compareSync
                (snd (loginCustomer no_faults example_compareSync example_state 0
                        (Some wrong_password) ''K1''))
                5000 (Some wrong_password) ''K2''))
         10000 (Some wrong_password) ''K3'')
   = Inl (USER_BLOCKED 60)"
proof -
  let ?L = "loginCustomer no_faults example_compareSync"
  let ?s1 = "snd (?L example_state 0 (Some wrong_password) ''K1'')"
  let ?s2 = "snd (?L ?s1 5000 (Some wrong_password) ''K2'')"
  have c1: "credentialCheckFails no_faults example_compareSync example_state 0 wrong_password"
    by (simp add: credentialCheckFails_def login_steps example_data wrong_password_def)
  have c2: "credentialCheckFails no_faults example_compareSync ?s1 5000 wrong_password"
    by (simp add: credentialCheckFails_def login_steps example_data wrong_password_def)
  have c3: "credentialCheckFails no_faults example_compareSync ?s2 10000 wrong_password"
    by (simp add: credentialCheckFails_def login_steps example_data wrong_password_def)
  have n: "customer_login_h example_state ''998901234567'' = None"
    by (simp add: example_state_def)
  have p: "in_phone wrong_password = ''998901234567''"
    by (simp add: wrong_password_def example_inputs_def)
  show ?thesis
    using c1 c2 c3 n p
      third_failure_blocks [where f = no_faults and cmp = example_compareSync
        and ph = "''998901234567''" and ?s0.0 = example_state
        and ?i1.0 = wrong_password and ?i2.0 = wrong_password and ?i3.0 = wrong_password
        and ?t1.0 = 0 and ?t2.0 = 5000 and ?t3.0 = 10000
        and ?k1.0 = "''K1''" and ?k2.0 = "''K2''" and ?k3.0 = "''K3''"
        and ?s1.0 = ?s1 and ?s2.0 = ?s2
        and ?r1.0 = "fst (?L example_state 0 (Some wrong_password) ''K1'')"
        and ?r2.0 = "fst (?L ?s1 5000 (Some wrong_password) ''K2'')"
        and ?r3.0 = "fst (?L ?s2 10000 (Some wrong_password) ''K3'')"
        and ?s3.0 = "snd (?L ?s2 10000 (Some wrong_password) ''K3'')"]
    by (simp add: no_faults_def)
qed


text \<open>
  C2. While the status of a phone has \<open>is_blocked\<close> set and less than one minute has
  passed since \<open>last_login_attempt\<close>, a login attempt of the (existing) customer is
  answered \<open>USER_BLOCKED\<close> with the seconds that remain, whatever credential the request
  carries and whatever bcrypt would say of it; no store is altered, so neither the status
  record nor the one-time code is touched. When the attempt comes after the blocking one,
  the seconds that remain lie between 0 and 60.
\<close>

theorem still_blocked:
  assumes "getOneByPhone s (in_phone inputs) \<noteq> []"
    and "\<not> f Login_getOneByPhone" and "\<not> f Login_hGet_customer_login"
    and "customer_login_h s (in_phone inputs) = Some st"
    and "is_blocked st" and "last_login_attempt st = Some l" and "now < l + 60000"
  shows "loginCustomer f compareSync s now (Some inputs) tok =
           (Inl (USER_BLOCKED (diff_seconds (l + 60000) now)), s)
         \<and> (l \<le> now \<longrightarrow>
              0 \<le> diff_seconds (l + 60000) now \<and> diff_seconds (l + 60000) now \<le> 60)"
proof -
  obtain c cs where "getOneByPhone s (in_phone inputs) = c # cs"
    using assms(1) by (cases "getOneByPhone s (in_phone inputs)") auto
  then have fc: "login_findCustomer f s inputs = Inr c"
    using assms(2) by (rule findCustomer_hd)
  have cb: "login_checkBlocked f s now inputs =
              Inl (USER_BLOCKED (diff_seconds (l + 60000) now))"
    using assms(3-7) by (simp add: login_checkBlocked_def add_seconds_Some)
  have "loginCustomer f compareSync s now (Some inputs) tok =
           (Inl (USER_BLOCKED (diff_seconds (l + 60000) now)), s)"
    by (simp add: loginCustomer_def fc cb)
  moreover have "l \<le> now \<longrightarrow>
      0 \<le> diff_seconds (l + 60000) now \<and> diff_seconds (l + 60000) now \<le> 60"
    using assms(7) by (auto simp: diff_seconds_def)
  ultimately show ?thesis by simp
qed

text \<open>The blocked example customer submits the right one-time code from the trusted
  device 29.5 seconds after the blocking failure: 30 seconds remain.\<close>

theorem still_blocked_witness:
  "loginCustomer no_faults example_compareSync blocked_state 30500
      (Some (example_inputs ''devX'' None (Some ''123456''))) ''T2''
     = (Inl (USER_BLOCKED 30), blocked_state)"
proof -
  have g: "getOneByPhone blocked_state
             (in_phone (example_inputs ''devX'' None (Some ''123456''))) \<noteq> []"
    by (simp add: getOneByPhone_def blocked_state_def example_state_def example_inputs_def
        example_customer_def)
  have st: "customer_login_h blocked_state
              (in_phone (example_inputs ''devX'' None (Some ''123456'')))
            = Some \<lparr>last_login_attempt = Some 1000, safe_login_after = 0, is_blocked = True\<rparr>"
    by (simp add: blocked_state_def example_inputs_def)
  show ?thesis
    using still_blocked [OF g _ _ st, of no_faults 1000 30500 example_compareSync "''T2''"]
    by (simp add: no_faults_def diff_seconds_def)
qed

text \<open>
  Two further facts of the lockout. A single failed check for a phone without a status
  record is answered \<open>WRONG_PASSWORD\<close> or \<open>WRONG_OTP\<close> and stores a status that is
  not blocked.
\<close>

lemma first_failure_not_blocked:
  assumes "customer_login_h s (in_phone inputs) = None"
    and "credentialCheckFails f compareSync s now inputs"
    and "\<not> f Login_hGet_customer_login" and "\<not> f Login_hSet_customer_login"
  shows "\<exists>e. (e = WRONG_PASSWORD \<or> e = WRONG_OTP)
           \<and> loginCustomer f compareSync s now (Some inputs) tok =
               (Inl e, s\<lparr>customer_login_h := (customer_login_h s)(in_phone inputs \<mapsto>
                  \<lparr>last_login_attempt = Some now, safe_login_after = 0, is_blocked = False\<rparr>)\<rparr>)"
proof -
  have b: "login_checkBlocked f s now inputs = Inr emptyStatus"
    using assms(1,3) by (rule checkBlocked_None)
  from login_failed [OF assms(2) b assms(4), of tok] show ?thesis
    by (auto simp: failedStatus_empty)
qed

lemma first_failure_not_blocked_witness:
  "loginCustomer no_faults example_compareSync example_state 0 (Some wrong_password) ''K'' =
     (Inl WRONG_PASSWORD,
      example_state\<lparr>customer_login_h := (customer_login_h example_state)(''998901234567'' \<mapsto>
         \<lparr>last_login_attempt = Some 0, safe_login_after = 0, is_blocked = False\<rparr>)\<rparr>)"
proof -
  have n: "customer_login_h example_state (in_phone wrong_password) = None"
    by (simp add: example_data wrong_password_def)
  have c: "credentialCheckFails no_faults example_compareSync example_state 0 wrong_password"
    by (simp add: credentialCheckFails_def login_steps example_data wrong_password_def)
  have f: "fst (loginCustomer no_faults example_compareSync example_state 0
                  (Some wrong_password) ''K'') = Inl WRONG_PASSWORD"
    by (simp add: login_steps example_data wrong_password_def)
  from first_failure_not_blocked [OF n c no_faults_at no_faults_at, of "''K''"] f
  show ?thesis
    by (auto simp: wrong_password_def example_inputs_def)
qed

text \<open>
  Once the minute of a block has passed, the next attempt is let through with
  \<open>last_login_attempt\<close> reset; if its credential check fails, it is answered as a first
  failure and the stored status is no longer blocked.
\<close>

lemma block_window_elapsed:
  assumes "customer_login_h s (in_phone inputs) = Some st"
    and "is_blocked st" and "last_login_attempt st = Some l" and "l + 60000 \<le> now"
    and "credentialCheckFails f compareSync s now inputs"
    and "\<not> f Login_hGet_customer_login" and "\<not> f Login_hSet_customer_login"
  shows "login_checkBlocked f s now inputs =
           Inr (st\<lparr>last_login_attempt := None, is_blocked := False\<rparr>)
       \<and> (\<exists>e. (e = WRONG_PASSWORD \<or> e = WRONG_OTP)
              \<and> loginCustomer f compareSync s now (Some inputs) tok =
                  (Inl e, s\<lparr>customer_login_h := (customer_login_h s)(in_phone inputs \<mapsto>
                     st\<lparr>last_login_attempt := Some now, safe_login_after := 0,
                        is_blocked := False\<rparr>)\<rparr>))"
proof -
  have b: "login_checkBlocked f s now inputs =
             Inr (st\<lparr>last_login_attempt := None, is_blocked := False\<rparr>)"
    using assms(1-4,6) by (simp add: login_checkBlocked_def add_seconds_Some)
  have fs: "failedStatus now (st\<lparr>last_login_attempt := None, is_blocked := False\<rparr>) =
              st\<lparr>last_login_attempt := Some now, safe_login_after := 0, is_blocked := False\<rparr>"
    by (simp add: failedStatus_def)
  from login_failed [OF assms(5) b assms(7), of tok] have
    "\<exists>e. (e = WRONG_PASSWORD \<or> e = WRONG_OTP)
              \<and> loginCustomer f compareSync s now (Some inputs) tok =
                  (Inl e, s\<lparr>customer_login_h := (customer_login_h s)(in_phone inputs \<mapsto>
                     st\<lparr>last_login_attempt := Some now, safe_login_after := 0,
                        is_blocked := False\<rparr>)\<rparr>)"
    by (auto simp: fs)
  with b show ?thesis by simp
qed

lemma block_window_elapsed_witness:
  "fst (loginCustomer no_faults example_compareSync blocked_state 61000
          (Some wrong_password) ''K'') = Inl WRONG_PASSWORD
   \<and> customer_login_h (snd (loginCustomer no_faults example_compareSync blocked_state 61000
          (Some wrong_password) ''K'')) ''998901234567''
       = Some \<lparr>last_login_attempt = Some 61000, safe_login_after = 0, is_blocked = False\<rparr>"
proof -
  have a: "customer_login_h blocked_state (in_phone wrong_password)
            = Some \<lparr>last_login_attempt = Some 1000, safe_login_after = 0, is_blocked = True\<rparr>"
    by (simp add: blocked_state_def wrong_password_def example_inputs_def)
  have c: "credentialCheckFails no_faults example_compareSync blocked_state 61000 wrong_password"
    by (simp add: credentialCheckFails_def login_steps example_data wrong_password_def
        blocked_state_def)
  have f: "fst (loginCustomer no_faults example_compareSync blocked_state 61000
                  (Some wrong_password) ''K'') = Inl WRONG_PASSWORD"
    by (simp add: login_steps example_data wrong_password_def blocked_state_def)
  from block_window_elapsed [OF a _ _ _ c no_faults_at no_faults_at, of 1000 "''K''"] f
  show ?thesis
    by (auto simp: wrong_password_def example_inputs_def)
qed

section \<open>One-time codes\<close>

text \<open>
  C4. A login reaches the one-time-code check (the customer exists, no block is active, the
  device is trusted) with a stored code that has not expired and that the submitted code
  parses to, and no store call fails. Then the login succeeds with the new token and the
  otp record of the phone is deleted; the same submission made again on the stores it
  leaves, at any instant, is answered \<open>WRONG_OTP\<close>: the code is used up.
\<close>

theorem otp_single_use:
  assumes cust: "getOneByPhone s (in_phone inputs) \<noteq> []"
    and nb: "login_checkBlocked no_faults s now inputs = Inr customerStatus"
    and dev: "getOneByUid s (in_deviceId inputs) (in_phone inputs) \<noteq> []"
    and otp: "otp_h s (in_phone inputs) = Some otpObject"
    and live: "now < expiresAt otpObject"
    and match: "parseInt (in_otp inputs) = Some (code otpObject)"
  shows "fst (loginCustomer no_faults compareSync s now (Some inputs) tok) = Inr tok
       \<and> otp_h (snd (loginCustomer no_faults compareSync s now (Some inputs) tok))
             (in_phone inputs) = None
       \<and> (\<forall>now' tok'.
             fst (loginCustomer no_faults compareSync
                    (snd (loginCustomer no_faults compareSync s now (Some inputs) tok))
                    now' (Some inputs) tok') = Inl WRONG_OTP)"
proof -
  let ?s' = "snd (loginCustomer no_faults compareSync s now (Some inputs) tok)"
  have nf: "\<not> no_faults site" for site by (simp add: no_faults_def)
  obtain c cs where g: "getOneByPhone s (in_phone inputs) = c # cs"
    using cust by (cases "getOneByPhone s (in_phone inputs)") auto
  have fc: "login_findCustomer no_faults s inputs = Inr c"
    using g nf by (rule findCustomer_hd)
  have ph: "cust_phone c = in_phone inputs"
    using g by (rule getOneByPhone_phone)
  have req: "required (in_otp inputs)"
    using match by (rule parseInt_required)
  have dt: "login_determineType no_faults s inputs = Inr Otp"
    using dev req by (simp add: login_determineType_def nf)
  have cc: "login_checkCredentials no_faults compareSync s now c inputs Otp =
              (Inr True, s\<lparr>otp_h := (otp_h s)(cust_phone c := None)\<rparr>)"
    using otp live match by (simp add: checkCredentials_otp_valid ph nf)
  note run = login_valid_run [OF fc nb dt cc, of tok]
  have r: "fst (loginCustomer no_faults compareSync s now (Some inputs) tok) = Inr tok"
    by (rule run(1))
  have o': "otp_h ?s' (in_phone inputs) = None"
    by (simp add: run(2) ph)
  have l': "customer_login_h ?s' (in_phone inputs) = None"
    by (simp add: run(3) ph)
  have c': "customers_tbl ?s' = customers_tbl s"
    by (simp add: run(4))
  have d': "set (devices_tbl s) \<subseteq> set (devices_tbl ?s')"
    by (auto simp: run(5))
  have again: "fst (loginCustomer no_faults compareSync ?s' now' (Some inputs) tok') = Inl WRONG_OTP"
    for now' tok'
  proof -
    have "getOneByPhone ?s' (in_phone inputs) = c # cs"
      using g by (simp add: getOneByPhone_def c')
    then have fc': "login_findCustomer no_faults ?s' inputs = Inr c"
      using nf by (rule findCustomer_hd)
    have nb': "login_checkBlocked no_faults ?s' now' inputs = Inr emptyStatus"
      using l' nf by (rule checkBlocked_None)
    have "getOneByUid ?s' (in_deviceId inputs) (in_phone inputs) \<noteq> []"
      using dev c' d' by (rule getOneByUid_more_devices)
    then have dt': "login_determineType no_faults ?s' inputs = Inr Otp"
      using req by (simp add: login_determineType_def nf)
    have cc': "login_checkCredentials no_faults compareSync ?s' now' c inputs Otp = (Inr False, ?s')"
      using o' nf by (simp add: checkCredentials_otp_absent ph)
    from login_failed_steps [OF fc' nb' dt' cc' ph nf, of tok'] show ?thesis
      by (simp add: failedStatus_empty)
  qed
  from r o' again show ?thesis by simp
qed

theorem otp_single_use_witness:
  "fst (loginCustomer no_faults example_compareSync example_state 60000 (Some otp_login) ''T2'')
     = Inr ''T2''
   \<and> otp_h (snd (loginCustomer no_faults example_compareSync example_state 60000
                   (Some otp_login) ''T2'')) ''998901234567'' = None
   \<and> fst (loginCustomer no_faults example_compareSync
            (snd (loginCustomer no_faults example_compareSync example_state 60000
                    (Some otp_login) ''T2''))
            60001 (Some otp_login) ''T3'') = Inl WRONG_OTP"
proof -
  have a: "getOneByPhone example_state (in_phone otp_login) \<noteq> []"
    by (simp add: getOneByPhone_def example_data otp_login_def)
  have b: "login_checkBlocked no_faults example_state 60000 otp_login = Inr emptyStatus"
    by (simp add: login_checkBlocked_def example_data otp_login_def)
  have c: "getOneByUid example_state (in_deviceId otp_login) (in_phone otp_login) \<noteq> []"
    by (simp add: getOneByUid_def example_data otp_login_def)
  have e: "otp_h example_state (in_phone otp_login) = Some \<lparr>code = 123456, expiresAt = 120000\<rparr>"
    by (simp add: example_data otp_login_def)
  have p: "parseInt (in_otp otp_login) = Some (code \<lparr>code = 123456, expiresAt = 120000\<rparr>)"
    by (simp add: otp_login_def example_inputs_def parseInt_example)
  have q: "in_phone otp_login = ''998901234567''"
    by (simp add: otp_login_def example_inputs_def)
  from otp_single_use [OF a b c e _ p, of example_compareSync "''T2''"] show ?thesis
    by (simp add: q)
qed

text \<open>
  C5, as stated, fails where the expiry instant equals the current instant: the source asks
  \<open>moment().isAfter(expiresAt)\<close> for expiry and \<open>moment().isBefore(expiresAt)\<close> for
  acceptance, so at the expiry instant itself the code is neither expired nor accepted. The
  example customer submits the stored code 123456 at instant 120000, its expiry: the login
  is answered \<open>WRONG_OTP\<close> and the record stays.
\<close>

theorem expiry_instant_counterexample:
  "expiresAt \<lparr>code = 123456, expiresAt = 120000\<rparr> \<le> 120000
   \<and> otp_h example_state ''998901234567'' = Some \<lparr>code = 123456, expiresAt = 120000\<rparr>
   \<and> fst (loginCustomer no_faults example_compareSync example_state 120000 (Some otp_login) ''K'')
       = Inl WRONG_OTP
   \<and> otp_h (snd (loginCustomer no_faults example_compareSync example_state 120000
                   (Some otp_login) ''K'')) ''998901234567''
       = Some \<lparr>code = 123456, expiresAt = 120000\<rparr>"
  by (simp add: login_steps example_data otp_login_def parseInt_example)

text \<open>
  C5, amended. When the stored expiry instant is strictly less than the current instant,
  the step deletes the record and ends the waterfall with \<open>EXPIRED_OTP\<close>, for every
  submitted code.
\<close>

theorem expired_otp_deleted:
  assumes "otp_h s (cust_phone customer) = Some otpObject"
    and "expiresAt otpObject < now"
    and "\<not> f Login_hGet_otp" and "\<not> f Login_hDel_otp"
  shows "login_checkCredentials f compareSync s now customer inputs Otp =
           (Inl EXPIRED_OTP, s\<lparr>otp_h := (otp_h s)(cust_phone customer := None)\<rparr>)"
  using assms by (simp add: login_checkCredentials_def hDel_otp_def)

theorem expired_otp_deleted_witness:
  "login_checkCredentials no_faults example_compareSync example_state 120001 example_customer
      otp_login Otp
     = (Inl EXPIRED_OTP,
        example_state\<lparr>otp_h := (otp_h example_state)(''998901234567'' := None)\<rparr>)"
proof -
  have a: "otp_h example_state (cust_phone example_customer)
             = Some \<lparr>code = 123456, expiresAt = 120000\<rparr>"
    by (simp add: example_state_def example_customer_def)
  have c: "cust_phone example_customer = ''998901234567''"
    by (simp add: example_customer_def)
  show ?thesis
    using expired_otp_deleted [OF a, of 120001 no_faults example_compareSync otp_login]
    by (simp add: no_faults_def c)
qed

text \<open>
  C9. A login that reaches the one-time-code check (the customer exists, no block is
  active, the device is trusted, a code is submitted) while the stored code's expiry is
  past ends with \<open>EXPIRED_OTP\<close>; the only store it may touch is the otp hash, and the
  \<open>customer_login\<close> hash is left as it was.
\<close>

theorem expired_otp_not_counted:
  assumes "getOneByPhone s (in_phone inputs) \<noteq> []"
    and "login_checkBlocked f s now inputs = Inr customerStatus"
    and "getOneByUid s (in_deviceId inputs) (in_phone inputs) \<noteq> []"
    and "required (in_otp inputs)"
    and "otp_h s (in_phone inputs) = Some otpObject"
    and "expiresAt otpObject < now"
    and "\<not> f Login_getOneByPhone" and "\<not> f Login_getOneByUid" and "\<not> f Login_hGet_otp"
  shows "loginCustomer f compareSync s now (Some inputs) tok =
           (Inl EXPIRED_OTP, hDel_otp f Login_hDel_otp s (in_phone inputs))
       \<and> customer_login_h (snd (loginCustomer f compareSync s now (Some inputs) tok))
           = customer_login_h s"
proof -
  obtain c cs where g: "getOneByPhone s (in_phone inputs) = c # cs"
    using assms(1) by (cases "getOneByPhone s (in_phone inputs)") auto
  have fc: "login_findCustomer f s inputs = Inr c"
    using g assms(7) by (rule findCustomer_hd)
  have ph: "cust_phone c = in_phone inputs"
    using g by (rule getOneByPhone_phone)
  have dt: "login_determineType f s inputs = Inr Otp"
    using assms(3,4,8) by (simp add: login_determineType_def)
  have cc: "login_checkCredentials f compareSync s now c inputs Otp =
              (Inl EXPIRED_OTP, hDel_otp f Login_hDel_otp s (in_phone inputs))"
    using assms(5,6,9) by (simp add: login_checkCredentials_def ph)
  have r: "loginCustomer f compareSync s now (Some inputs) tok =
             (Inl EXPIRED_OTP, hDel_otp f Login_hDel_otp s (in_phone inputs))"
    by (simp add: loginCustomer_def fc assms(2) dt cc)
  then have e: "fst (loginCustomer f compareSync s now (Some inputs) tok) = Inl EXPIRED_OTP"
    by simp
  from r login_expired_frame [OF e] show ?thesis by simp
qed

theorem expired_otp_not_counted_witness:
  "fst (loginCustomer no_faults example_compareSync example_state 120001 (Some otp_login) ''K'')
     = Inl EXPIRED_OTP
   \<and> customer_login_h (snd (loginCustomer no_faults example_compareSync example_state 120001
                             (Some otp_login) ''K''))
     = customer_login_h example_state"
proof -
  have a: "getOneByPhone example_state (in_phone otp_login) \<noteq> []"
    by (simp add: getOneByPhone_def example_data otp_login_def)
  have b: "login_checkBlocked no_faults example_state 120001 otp_login = Inr emptyStatus"
    by (simp add: login_checkBlocked_def example_data otp_login_def)
  have c: "getOneByUid example_state (in_deviceId otp_login) (in_phone otp_login) \<noteq> []"
    by (simp add: getOneByUid_def example_data otp_login_def)
  have d: "required (in_otp otp_login)"
    by (simp add: required_def example_data otp_login_def)
  have e: "otp_h example_state (in_phone otp_login) = Some \<lparr>code = 123456, expiresAt = 120000\<rparr>"
    by (simp add: example_data otp_login_def)
  show ?thesis
    using expired_otp_not_counted [OF a b c d e, of example_compareSync "''K''"]
    by (simp add: no_faults_def hDel_otp_def)
qed


section \<open>The login-type query\<close>

text \<open>
  C3, as stated, fails: when the device is trusted, \<open>getCustomerLoginType\<close> generates a
  one-time code and stores it under the phone in the otp hash before it answers. The
  example customer asks from the trusted device \<open>devX\<close>: the answer is otp and the
  stored code 123456 has been replaced by the generated 654321.
\<close>

theorem login_type_counterexample:
  "getOneByPhone example_state (lt_phone type_query) \<noteq> []
   \<and> fst (getCustomerLoginType no_faults example_state 0 (Some type_query) 654321)
       = Inr \<lparr>password = False, otp = True\<rparr>
   \<and> otp_h (snd (getCustomerLoginType no_faults example_state 0 (Some type_query) 654321))
         ''998901234567''
       = Some \<lparr>code = 654321, expiresAt = 120000\<rparr>
   \<and> otp_h example_state ''998901234567'' = Some \<lparr>code = 123456, expiresAt = 120000\<rparr>
   \<and> snd (getCustomerLoginType no_faults example_state 0 (Some type_query) 654321)
       \<noteq> example_state"
proof -
  let ?r = "getCustomerLoginType no_faults example_state 0 (Some type_query) 654321"
  have a: "getOneByPhone example_state (lt_phone type_query) \<noteq> []"
    by (simp add: getOneByPhone_def example_data type_query_def)
  have b: "fst ?r = Inr \<lparr>password = False, otp = True\<rparr>"
    by (simp add: getCustomerLoginType_def getOneByPhone_def getOneByUid_def example_data
        type_query_def)
  have c: "otp_h (snd ?r) ''998901234567'' = Some \<lparr>code = 654321, expiresAt = 120000\<rparr>"
    by (simp add: getCustomerLoginType_def getOneByPhone_def getOneByUid_def example_data
        type_query_def)
  have d: "otp_h example_state ''998901234567'' = Some \<lparr>code = 123456, expiresAt = 120000\<rparr>"
    by (simp add: example_state_def)
  have "snd ?r \<noteq> example_state"
  proof
    assume "snd ?r = example_state"
    then have "otp_h (snd ?r) ''998901234567'' = otp_h example_state ''998901234567''"
      by simp
    with c d show False by simp
  qed
  with a b c d show ?thesis by simp
qed

text \<open>
  C3, amended. For a known phone the query answers otp exactly when a non-empty deviceId is
  supplied and (deviceId, phone) is a trusted-device association, and password otherwise;
  without a deviceId it always answers password. When it answers password every store is
  unchanged; when it answers otp it has stored the generated code, expiring two minutes from
  now, under the phone in the otp hash, and every other store is unchanged.
\<close>

theorem login_type_decision:
  assumes "getOneByPhone s (lt_phone inputs) \<noteq> []"
    and "\<not> f Type_getOneByPhone" and "\<not> f Type_getOneByUid" and "\<not> f Type_hSet_otp"
  shows "getCustomerLoginType f s now (Some inputs) rnd =
           (if \<exists>d. lt_deviceId inputs = Some d \<and> d \<noteq> [] \<and>
                    getOneByUid s d (lt_phone inputs) \<noteq> []
            then (Inr \<lparr>password = False, otp = True\<rparr>,
                  s\<lparr>otp_h := (otp_h s)(lt_phone inputs \<mapsto>
                                 \<lparr>code = rnd, expiresAt = now + 120000\<rparr>)\<rparr>)
            else (Inr \<lparr>password = True, otp = False\<rparr>, s))
       \<and> (lt_deviceId inputs = None \<longrightarrow>
            getCustomerLoginType f s now (Some inputs) rnd =
              (Inr \<lparr>password = True, otp = False\<rparr>, s))"
  using assms by (auto simp: getCustomerLoginType_def Let_def split: option.splits)

theorem login_type_decision_witness:
  "getCustomerLoginType no_faults example_state 0 (Some type_query) 654321 =
     (Inr \<lparr>password = False, otp = True\<rparr>,
      example_state\<lparr>otp_h := (otp_h example_state)(''998901234567'' \<mapsto>
                                 \<lparr>code = 654321, expiresAt = 120000\<rparr>)\<rparr>)
   \<and> getCustomerLoginType no_faults example_state 0
        (Some (type_query\<lparr>lt_deviceId := Some ''devY''\<rparr>)) 654321 =
     (Inr \<lparr>password = True, otp = False\<rparr>, example_state)"
proof -
  have a: "getOneByPhone example_state (lt_phone type_query) \<noteq> []"
    by (simp add: getOneByPhone_def example_data type_query_def)
  have a': "getOneByPhone example_state (lt_phone (type_query\<lparr>lt_deviceId := Some ''devY''\<rparr>)) \<noteq> []"
    by (simp add: getOneByPhone_def example_data type_query_def)
  have u: "getOneByUid example_state ''devX'' ''998901234567'' \<noteq> []"
    by (simp add: getOneByUid_def example_data)
  have v: "getOneByUid example_state ''devY'' ''998901234567'' = []"
    by (simp add: getOneByUid_def example_data)
  show ?thesis
    using login_type_decision [OF a, of no_faults 0 654321]
      login_type_decision [OF a', of no_faults 0 654321] u v
    by (simp add: no_faults_def type_query_def)
qed

section \<open>Session tokens\<close>

text \<open>
  C6. A login succeeds for a customer whose entry in the \<open>customers\<close> hash names a token
  \<open>oldToken\<close>, and \<open>v4()\<close> returns a token other than it. Then the record of
  \<open>oldToken\<close> is gone from the \<open>tokens\<close> hash, so validating it is Invalid at every
  instant; the customer's entry names the new token, whose record expires in one hour;
  and if \<open>oldToken\<close> was the only token recorded for this customer before, the new
  token is the only one after. The \<open>hDel\<close> of the old record has no callback, so it is
  assumed not to fail.
\<close>

theorem old_token_superseded:
  assumes ok: "loginCustomer f compareSync s now (Some inputs) tok = (Inr t, s')"
    and cust: "getOneByPhone s (in_phone inputs) = customer # rest"
    and held: "customers_h s (cust_id customer) = Some oldToken"
    and ne: "oldToken \<noteq> []" and fresh: "tok \<noteq> oldToken"
    and nf: "\<not> f Login_hDel_tokens"
  shows "t = tok
       \<and> tokens_h s' oldToken = None
       \<and> (\<forall>now'. validateToken s' now' oldToken = None)
       \<and> customers_h s' (cust_id customer) = Some tok
       \<and> tokens_h s' tok =
            Some \<lparr>tk_id = cust_id customer, tk_role = ''customer'',
                  tk_expiresAt = now + 3600000\<rparr>
       \<and> ((\<forall>k r. tokens_h s k = Some r \<and> tk_id r = cust_id customer \<longrightarrow> k = oldToken)
            \<longrightarrow> (\<forall>k r. tokens_h s' k = Some r \<and> tk_id r = cust_id customer \<longrightarrow> k = tok))"
proof -
  from ok obtain c customerStatus loginType isValid s1 s2 s3 s4 where
    fc: "login_findCustomer f s inputs = Inr c"
    and cc: "login_checkCredentials f compareSync s now c inputs loginType = (Inr isValid, s1)"
    and ro: "login_recordOutcome f s1 now c customerStatus isValid loginType = (Inr (), s2)"
    and td: "login_trustDevice f s2 c inputs = (Inr (), s3)"
    and dt: "login_deleteOldToken f s3 c = (Inr (), s4)"
    and st: "saveToken f Login_hSet_customers Login_hSet_tokens s4 now (cust_id c) tok = (Inr t, s')"
    by (rule login_success_steps)
  from fc cust have c: "c = customer"
    by (simp add: login_findCustomer_def split: if_splits)
  have h3: "customers_h s3 = customers_h s" and k3: "tokens_h s3 = tokens_h s"
    using checkCredentials_tokens [OF cc] recordOutcome_tokens [OF ro] trustDevice_tokens [OF td]
    by simp_all
  have held3: "customers_h s3 (cust_id c) = Some oldToken"
    using held by (simp add: h3 c)
  have k4: "tokens_h s4 = (tokens_h s)(oldToken := None)"
    and h4: "customers_h s4 = customers_h s"
    using deleteOldToken_deletes [OF dt held3 ne nf] by (simp_all add: h3 k3)
  from saveToken_success [OF st]
  have t: "t = tok"
    and h': "customers_h s' = (customers_h s4)(cust_id c \<mapsto> tok)"
    and k': "tokens_h s' = (tokens_h s4)(tok \<mapsto>
               \<lparr>tk_id = cust_id c, tk_role = ''customer'', tk_expiresAt = now + 3600000\<rparr>)"
    by simp_all
  have gone: "tokens_h s' oldToken = None"
    using fresh by (simp add: k' k4)
  then have val: "\<forall>now'. validateToken s' now' oldToken = None"
    by (simp add: validateToken_def)
  have cur: "customers_h s' (cust_id customer) = Some tok"
    by (simp add: h' c)
  have new: "tokens_h s' tok = Some \<lparr>tk_id = cust_id customer, tk_role = ''customer'',
                  tk_expiresAt = now + 3600000\<rparr>"
    by (simp add: k' c)
  have inv: "(\<forall>k r. tokens_h s k = Some r \<and> tk_id r = cust_id customer \<longrightarrow> k = oldToken)
            \<longrightarrow> (\<forall>k r. tokens_h s' k = Some r \<and> tk_id r = cust_id customer \<longrightarrow> k = tok)"
  proof (intro impI allI)
    fix k r
    assume H: "\<forall>k r. tokens_h s k = Some r \<and> tk_id r = cust_id customer \<longrightarrow> k = oldToken"
      and A: "tokens_h s' k = Some r \<and> tk_id r = cust_id customer"
    show "k = tok"
    proof (rule ccontr)
      assume "k \<noteq> tok"
      with A have "tokens_h s4 k = Some r" by (simp add: k')
      then have "k \<noteq> oldToken" and "tokens_h s k = Some r"
        by (auto simp: k4 split: if_splits)
      with H A show False by blast
    qed
  qed
  from t gone val cur new inv show ?thesis
    by (intro conjI)
qed

theorem old_token_superseded_witness:
  "fst (loginCustomer no_faults example_compareSync example_state 5000 (Some right_password) ''T2'')
     = Inr ''T2''
   \<and> validateToken example_state 5000 ''T1'' = Some (''c1'', ''customer'')
   \<and> validateToken
        (snd (loginCustomer no_faults example_compareSync example_state 5000
                (Some right_password) ''T2'')) 5000 ''T1'' = None
   \<and> validateToken
        (snd (loginCustomer no_faults example_compareSync example_state 5000
                (Some right_password) ''T2'')) 5000 ''T2'' = Some (''c1'', ''customer'')"
proof -
  let ?r = "loginCustomer no_faults example_compareSync example_state 5000
              (Some right_password) ''T2''"
  have f: "fst ?r = Inr ''T2''"
    by (simp add: login_steps example_data right_password_def)
  then have ok: "?r = (Inr ''T2'', snd ?r)"
    by (metis prod.collapse)
  have g: "getOneByPhone example_state (in_phone right_password) = example_customer # []"
    by (simp add: getOneByPhone_def example_data right_password_def)
  have h: "customers_h example_state (cust_id example_customer) = Some ''T1''"
    by (simp add: example_data)
  have v: "validateToken example_state 5000 ''T1'' = Some (''c1'', ''customer'')"
    by (simp add: validateToken_def example_data)
  have n: "\<not> no_faults Login_hDel_tokens"
    by (simp add: no_faults_def)
  from old_token_superseded [OF ok g h _ _ n]
  have gone: "\<forall>now'. validateToken (snd ?r) now' ''T1'' = None"
    and new: "tokens_h (snd ?r) ''T2'' =
      Some \<lparr>tk_id = cust_id example_customer, tk_role = ''customer'',
            tk_expiresAt = 5000 + 3600000\<rparr>"
    by simp_all
  from new have v2: "validateToken (snd ?r) 5000 ''T2'' = Some (''c1'', ''customer'')"
    by (simp add: validateToken_def example_customer_def)
  from f v gone v2 show ?thesis by simp
qed


section \<open>Registration\<close>

text \<open>
  C7. A registration that fails before the customer is created (the validator rejects the
  body, the lookup by phone fails, the phone is taken, or the create fails) reports that
  error and leaves every store as it was. Once the customer is created, a failure of the
  \<open>customers\<close> write, of the \<open>tokens\<close> write or of the trusted-device creation is
  reported as that step's error, never as success, no device is recorded, and the
  compensating delete removes the created customer: unless the delete itself fails, no
  customer with the new id remains, and the table is the one before the request when the
  id is fresh. When no step fails the token is returned and the customer stays.
\<close>

theorem register_compensation:
  assumes run: "registerCustomer f hashSync s now validData newId tok = (r, s')"
  shows "(validData = None \<or> f Reg_getOneByPhone
          \<or> (\<exists>i. validData = Some i \<and> getOneByPhone s (rg_phone i) \<noteq> []) \<or> f Reg_create
          \<longrightarrow> s' = s \<and>
              r = Inl (case validData of
                         None \<Rightarrow> ValidationError
                       | Some i \<Rightarrow>
                           if f Reg_getOneByPhone then IO_ERROR Reg_getOneByPhone
                           else if getOneByPhone s (rg_phone i) \<noteq> [] then NUMBER_TAKEN
                           else IO_ERROR Reg_create))
       \<and> (\<forall>i. validData = Some i \<and> \<not> f Reg_getOneByPhone \<and> getOneByPhone s (rg_phone i) = []
                \<and> \<not> f Reg_create \<longrightarrow>
             (if f Reg_hSet_customers \<or> f Reg_hSet_tokens \<or> (rg_trust i \<and> f Reg_createDevice)
              then r = Inl (IO_ERROR (if f Reg_hSet_customers then Reg_hSet_customers
                                      else if f Reg_hSet_tokens then Reg_hSet_tokens
                                      else Reg_createDevice))
                   \<and> devices_tbl s' = devices_tbl s
                   \<and> (\<not> f Reg_delete \<longrightarrow>
                        getOneById s' newId = []
                        \<and> ((\<forall>c \<in> set (customers_tbl s). cust_id c \<noteq> newId)
                             \<longrightarrow> customers_tbl s' = customers_tbl s))
              else r = Inr tok
                   \<and> customers_tbl s' =
                       customers_tbl s @
                         [newRow newId (rg_name i) (rg_phone i) (hashSync (rg_password i))]))"
proof (intro conjI impI allI)
  assume "validData = None \<or> f Reg_getOneByPhone
          \<or> (\<exists>i. validData = Some i \<and> getOneByPhone s (rg_phone i) \<noteq> []) \<or> f Reg_create"
  with run have "s' = s \<and>
         r = Inl (case validData of
                    None \<Rightarrow> ValidationError
                  | Some i \<Rightarrow>
                      if f Reg_getOneByPhone then IO_ERROR Reg_getOneByPhone
                      else if getOneByPhone s (rg_phone i) \<noteq> [] then NUMBER_TAKEN
                      else IO_ERROR Reg_create)"
    by (rule register_before_creation)
  then show "s' = s" and "r = Inl (case validData of
                    None \<Rightarrow> ValidationError
                  | Some i \<Rightarrow>
                      if f Reg_getOneByPhone then IO_ERROR Reg_getOneByPhone
                      else if getOneByPhone s (rg_phone i) \<noteq> [] then NUMBER_TAKEN
                      else IO_ERROR Reg_create)"
    by simp_all
next
  fix i
  assume a: "validData = Some i \<and> \<not> f Reg_getOneByPhone \<and> getOneByPhone s (rg_phone i) = []
                \<and> \<not> f Reg_create"
  then have run': "registerCustomer f hashSync s now (Some i) newId tok = (r, s')"
    and pre: "\<not> f Reg_getOneByPhone" "getOneByPhone s (rg_phone i) = []" "\<not> f Reg_create"
    using run by simp_all
  show "if f Reg_hSet_customers \<or> f Reg_hSet_tokens \<or> (rg_trust i \<and> f Reg_createDevice)
              then r = Inl (IO_ERROR (if f Reg_hSet_customers then Reg_hSet_customers
                                      else if f Reg_hSet_tokens then Reg_hSet_tokens
                                      else Reg_createDevice))
                   \<and> devices_tbl s' = devices_tbl s
                   \<and> (\<not> f Reg_delete \<longrightarrow>
                        getOneById s' newId = []
                        \<and> ((\<forall>c \<in> set (customers_tbl s). cust_id c \<noteq> newId)
                             \<longrightarrow> customers_tbl s' = customers_tbl s))
              else r = Inr tok
                   \<and> customers_tbl s' =
                       customers_tbl s @
                         [newRow newId (rg_name i) (rg_phone i) (hashSync (rg_password i))]"
  proof (cases "f Reg_hSet_customers \<or> f Reg_hSet_tokens \<or> (rg_trust i \<and> f Reg_createDevice)")
    case True
    show ?thesis
      unfolding if_P [OF True] by (rule register_after_creation [OF run' pre True])
  next
    case False
    show ?thesis
      unfolding if_not_P [OF False] by (rule register_success [OF run' pre False])
  qed
qed

theorem register_compensation_witness:
  "fst (registerCustomer (fail_at Reg_hSet_tokens) example_hashSync example_state 0
          (Some register_request) ''c2'' ''T9'') = Inl (IO_ERROR Reg_hSet_tokens)
   \<and> customers_tbl (snd (registerCustomer (fail_at Reg_hSet_tokens) example_hashSync
                           example_state 0 (Some register_request) ''c2'' ''T9''))
       = customers_tbl example_state
   \<and> fst (registerCustomer no_faults example_hashSync example_state 0
            (Some (register_request\<lparr>rg_phone := ''998901234567''\<rparr>)) ''c2'' ''T9'')
       = Inl NUMBER_TAKEN
   \<and> snd (registerCustomer no_faults example_hashSync example_state 0
            (Some (register_request\<lparr>rg_phone := ''998901234567''\<rparr>)) ''c2'' ''T9'')
       = example_state"
proof -
  let ?r = "registerCustomer (fail_at Reg_hSet_tokens) example_hashSync example_state 0
              (Some register_request) ''c2'' ''T9''"
  let ?q = "registerCustomer no_faults example_hashSync example_state 0
            (Some (register_request\<lparr>rg_phone := ''998901234567''\<rparr>)) ''c2'' ''T9''"
  have g: "getOneByPhone example_state (rg_phone register_request) = []"
    by (simp add: getOneByPhone_def example_data register_request_def)
  have fresh: "\<forall>c \<in> set (customers_tbl example_state). cust_id c \<noteq> ''c2''"
    by (simp add: example_data)
  have taken: "getOneByPhone example_state
                 (rg_phone (register_request\<lparr>rg_phone := ''998901234567''\<rparr>)) \<noteq> []"
    by (simp add: getOneByPhone_def example_data)
  have A: "fst ?r = Inl (IO_ERROR Reg_hSet_tokens)
           \<and> customers_tbl (snd ?r) = customers_tbl example_state"
    using register_compensation [of "fail_at Reg_hSet_tokens" example_hashSync example_state 0
        "Some register_request" "''c2''" "''T9''" "fst ?r" "snd ?r"] g fresh
    by (simp add: fail_at_def)
  have B: "fst ?q = Inl NUMBER_TAKEN \<and> snd ?q = example_state"
    using register_compensation [of no_faults example_hashSync example_state 0
        "Some (register_request\<lparr>rg_phone := ''998901234567''\<rparr>)" "''c2''" "''T9''"
        "fst ?q" "snd ?q"] taken
    by (simp add: no_faults_def)
  from A B show ?thesis by simp
qed

section \<open>The one-time code sent back by the fake SMS getter\<close>

text \<open>
  C8. \<open>getOtpFromSMS\<close>, routed at \<open>GET /otp/recievebysms/:phone\<close>, answers with the
  decimal text of the code stored for the phone (text that \<open>parseInt\<close> reads back as the
  stored code), whatever the code's expiry instant and whatever the session stores hold;
  it answers with the empty body when no code is stored; and it leaves every store,
  the otp record included, as it was.
\<close>

theorem otp_sms_plaintext:
  "(\<not> f Sms_hGet_otp \<and> otp_h s ph = Some otpObject \<longrightarrow>
       getOtpFromSMS f s ph = (toString (code otpObject), s)
     \<and> parseInt (Some (fst (getOtpFromSMS f s ph))) = Some (code otpObject)
     \<and> (\<forall>e. fst (getOtpFromSMS f
                    (s\<lparr>otp_h := (otp_h s)(ph \<mapsto> otpObject\<lparr>expiresAt := e\<rparr>)\<rparr>) ph)
             = toString (code otpObject)))
   \<and> (otp_h s ph = None \<longrightarrow> getOtpFromSMS f s ph = ([], s))
   \<and> snd (getOtpFromSMS f s ph) = s
   \<and> (\<forall>tk ch. fst (getOtpFromSMS f (s\<lparr>tokens_h := tk, customers_h := ch\<rparr>) ph)
               = fst (getOtpFromSMS f s ph))
   \<and> (''GET'', ''/otp/recievebysms/:phone'', GetOtpFromSMS) \<in> set router"
proof (intro conjI impI allI)
  assume a: "\<not> f Sms_hGet_otp \<and> otp_h s ph = Some otpObject"
  then show r: "getOtpFromSMS f s ph = (toString (code otpObject), s)"
    by (simp add: getOtpFromSMS_def)
  show "parseInt (Some (fst (getOtpFromSMS f s ph))) = Some (code otpObject)"
    by (simp add: r parseInt_toString)
  fix e
  from a show "fst (getOtpFromSMS f
                    (s\<lparr>otp_h := (otp_h s)(ph \<mapsto> otpObject\<lparr>expiresAt := e\<rparr>)\<rparr>) ph)
             = toString (code otpObject)"
    by (simp add: getOtpFromSMS_def)
next
  assume "otp_h s ph = None"
  then show "getOtpFromSMS f s ph = ([], s)"
    by (simp add: getOtpFromSMS_def)
next
  show "snd (getOtpFromSMS f s ph) = s"
    by (simp add: getOtpFromSMS_def split: option.splits)
next
  fix tk ch
  show "fst (getOtpFromSMS f (s\<lparr>tokens_h := tk, customers_h := ch\<rparr>) ph)
               = fst (getOtpFromSMS f s ph)"
    by (simp add: getOtpFromSMS_def split: option.splits)
next
  show "(''GET'', ''/otp/recievebysms/:phone'', GetOtpFromSMS) \<in> set router"
    by (simp add: router_def)
qed

theorem otp_sms_plaintext_witness:
  "getOtpFromSMS no_faults example_state ''998901234567'' = (''123456'', example_state)
   \<and> getOtpFromSMS no_faults example_state ''998900000001'' = ([], example_state)"
proof -
  have a: "otp_h example_state ''998901234567'' = Some \<lparr>code = 123456, expiresAt = 120000\<rparr>"
    and b: "otp_h example_state ''998900000001'' = None"
    by (simp_all add: example_state_def)
  have n: "\<not> no_faults Sms_hGet_otp"
    by (simp add: no_faults_def)
  from otp_sms_plaintext [of no_faults example_state "''998901234567''"
      "\<lparr>code = 123456, expiresAt = 120000\<rparr>"] a n
  have "getOtpFromSMS no_faults example_state ''998901234567'' = (''123456'', example_state)"
    by (simp add: toString_example)
  moreover from otp_sms_plaintext [of no_faults example_state "''998900000001''"] b
  have "getOtpFromSMS no_faults example_state ''998900000001'' = ([], example_state)"
    by simp
  ultimately show ?thesis by simp
qed

section \<open>The profile\<close>

text \<open>
  C10. The object \<open>getCustomerProfile\<close> responds with has no \<open>hashed_password\<close> field,
  and the whole outcome is the same whatever password hashes the customers table stores.
\<close>

theorem profile_hides_hash:
  "(\<forall>customer. getCustomerProfile f getFileUrl s verified = Inr customer
        \<longrightarrow> customer ''hashed_password'' = None)
   \<and> getCustomerProfile f getFileUrl
        (s\<lparr>customers_tbl := map (\<lambda>c. c\<lparr>hashed_password := h c\<rparr>) (customers_tbl s)\<rparr>) verified
      = getCustomerProfile f getFileUrl s verified"
proof
  show "\<forall>customer. getCustomerProfile f getFileUrl s verified = Inr customer
        \<longrightarrow> customer ''hashed_password'' = None"
    by (auto simp: getCustomerProfile_def Let_def split: sum.splits if_splits list.splits)
next
  show "getCustomerProfile f getFileUrl
        (s\<lparr>customers_tbl := map (\<lambda>c. c\<lparr>hashed_password := h c\<rparr>) (customers_tbl s)\<rparr>) verified
      = getCustomerProfile f getFileUrl s verified"
  proof (cases verified)
    case (Inl e)
    then show ?thesis by (simp add: getCustomerProfile_def)
  next
    case (Inr customerId)
    show ?thesis
    proof (cases "getOneById s customerId")
      case Nil
      then show ?thesis by (simp add: getCustomerProfile_def Inr getOneById_map)
    next
      case (Cons row rest)
      then show ?thesis
        using rowObject_hidden [where c = row and h = "h row"]
        by (simp add: getCustomerProfile_def Inr getOneById_map Let_def rowObject_image)
    qed
  qed
qed

theorem profile_hides_hash_witness:
  "(\<exists>customer. getCustomerProfile no_faults (\<lambda>u. u) example_state (Inr ''c1'') = Inr customer
       \<and> customer ''phone'' = Some (Some ''998901234567'')
       \<and> customer ''hashed_password'' = None)
   \<and> rowObject example_customer ''hashed_password'' = Some (Some ''hash:abc123'')"
proof -
  obtain customer where c: "getCustomerProfile no_faults (\<lambda>u. u) example_state (Inr ''c1'') = Inr customer"
    and p: "customer ''phone'' = Some (Some ''998901234567'')"
    by (simp add: getCustomerProfile_def getOneById_def rowObject_def example_data Let_def)
  from profile_hides_hash [of no_faults "\<lambda>u. u" example_state "Inr ''c1''"] c
  have "customer ''hashed_password'' = None" by blast
  moreover have "rowObject example_customer ''hashed_password'' = Some (Some ''hash:abc123'')"
    by (simp add: rowObject_def example_customer_def)
  ultimately show ?thesis using c p by blast
qed


end
